theory Spec2Isabelle
  imports Main
begin

section \<open>Values of the program\<close>

text \<open>
  The program is JavaScript (\<^verbatim>\<open>sheets-automation.js\<close>). A string is a \<^typ>\<open>string\<close>, one
  \<^typ>\<open>char\<close> per code unit, and \<^verbatim>\<open>charCodeAt\<close> is \<^const>\<open>of_char\<close>; a \<^typ>\<open>char\<close> has 256
  values, so the strings of the model are those whose code units are below 256, the
  letters, digits and punctuation of a cell reference among them. The numbers the cell
  arithmetic handles are integers (a parsed run of digits, an array length, sums and
  differences of these); they are modelled as \<^typ>\<open>int\<close>. A JavaScript number is a double:
  it holds every integer of magnitude up to \<open>2^53\<close>, computes sums, differences and
  products of such integers exactly when the result is one of them, and prints them in
  decimal; beyond \<open>2^53\<close> it rounds. So \<^typ>\<open>int\<close> is the program's arithmetic as long as
  the values stay below \<open>2^53\<close>, far above every row and column a sheet can hold, and the
  theorems about this arithmetic state that bound, or a narrower one, on the values they
  compute.

  A thrown exception is the \<open>Inl\<close> branch of a sum. Every \<^verbatim>\<open>throw new Error(msg)\<close> of the
  source is \<open>Error msg\<close>, and so is an error of the file system, of the parser or of the
  remote service, with its message; \<open>TypeError\<close> is the engine's exception for a method
  call on a value that has no such method and for a path argument that is not a string.
\<close>

datatype error = Error string | TypeError

type_synonym tabular = "string list list"

text \<open>
  The fields of a configuration object hold primitive values; \<open>JNum n\<close> is the number
  \<open>n\<close>, an integer of magnitude below \<open>2^53\<close>. \<open>JUndefined\<close> is what reading an absent
  property gives. \<open>truthy v\<close> is the condition \<^verbatim>\<open>if (v)\<close>, so \<^verbatim>\<open>!v\<close> is its negation;
  \<open>ToString\<close> is the conversion a template literal and a property key apply.
\<close>

datatype jsval = JUndefined | JNull | JBool bool | JNum int | JNaN | JStr string

fun truthy :: "jsval \<Rightarrow> bool" where
  "truthy JUndefined = False"
| "truthy JNull = False"
| "truthy (JBool b) = b"
| "truthy (JNum n) = (n \<noteq> 0)"
| "truthy JNaN = False"
| "truthy (JStr s) = (s \<noteq> [])"

subsection \<open>Printing and parsing integers\<close>

text \<open>
  \<open>number_to_string\<close> is the decimal form of an integer, which is how a template literal
  prints a number of magnitude below \<open>2^53\<close>.
\<close>

fun digits :: "nat \<Rightarrow> string" where
  "digits n = (if n < 10 then [char_of (n + 48)] else digits (n div 10) @ [char_of (n mod 10 + 48)])"

declare digits.simps [simp del]

definition number_to_string :: "int \<Rightarrow> string" where
  "number_to_string n = (if n < 0 then CHR ''-'' # digits (nat (- n)) else digits (nat n))"

definition isDigit :: "char \<Rightarrow> bool" where
  "isDigit c = (48 \<le> (of_char c :: int) \<and> (of_char c :: int) \<le> 57)"

definition isUpperAZ :: "char \<Rightarrow> bool" where
  "isUpperAZ c = (65 \<le> (of_char c :: int) \<and> (of_char c :: int) \<le> 90)"

fun ToString :: "jsval \<Rightarrow> string" where
  "ToString JUndefined = ''undefined''"
| "ToString JNull = ''null''"
| "ToString (JBool b) = (if b then ''true'' else ''false'')"
| "ToString (JNum n) = number_to_string n"
| "ToString JNaN = ''NaN''"
| "ToString (JStr s) = s"

text \<open>
  \<^verbatim>\<open>parseInt\<close> on a run of decimal digits, the only argument the program gives it: the
  number the digits write, which the source holds exactly when it is below \<open>2^53\<close>.
\<close>

definition parseInt :: "string \<Rightarrow> int" where
  "parseInt ds = foldl (\<lambda>v c. v * 10 + (of_char c - 48)) 0 ds"

section \<open>Cell reference algebra\<close>

text \<open>
  \<^verbatim>\<open>str.match(/[A-Z]+/)\<close> and \<^verbatim>\<open>str.match(/\d+/)\<close>: the pattern is not anchored, so the match
  is the leftmost maximal run of characters of the class, wherever it starts, and
  \<^verbatim>\<open>null\<close> (here \<open>None\<close>) when the string has no character of the class.
\<close>

definition match_run :: "(char \<Rightarrow> bool) \<Rightarrow> string \<Rightarrow> string option" where
  "match_run p s =
     (case dropWhile (\<lambda>c. \<not> p c) s of
        [] \<Rightarrow> None
      | c # cs \<Rightarrow> Some (takeWhile p (c # cs)))"

text \<open>
  \<^verbatim>\<open>
  function columnToNumber(column) {
    let result = 0;
    for (let i = 0; i < column.length; i++) {
      result = result * 26 + (column.charCodeAt(i) - 64);
    }
    return result;
  }
  \<close>
  The sum is exact in the source as long as it stays below \<open>2^53\<close> in magnitude.
\<close>

definition columnToNumber :: "string \<Rightarrow> int" where
  "columnToNumber column = foldl (\<lambda>result c. result * 26 + (of_char c - 64)) 0 column"

text \<open>
  \<^verbatim>\<open>
  function getColumnLetter(column) {
    let temp, letter = "";
    while (column > 0) {
      temp = (column - 1) % 26;
      letter = String.fromCharCode(temp + 65) + letter;
      column = (column - temp - 1) / 26;
    }
    return letter;
  }
  \<close>
  Inside the loop \<open>column - 1\<close> is not negative, so \<^verbatim>\<open>%\<close> is \<open>mod\<close>, and
  \<open>column - temp - 1\<close> is a multiple of 26, so the division is exact, for an integer
  \<open>column\<close> below \<open>2^53\<close>.
\<close>

function getColumnLetter_loop :: "int \<Rightarrow> string \<Rightarrow> string" where
  "getColumnLetter_loop column letter =
     (if column > 0
      then let temp = (column - 1) mod 26
           in getColumnLetter_loop ((column - temp - 1) div 26) (char_of (temp + 65) # letter)
      else letter)"
  by pat_completeness auto
termination
  by (relation "measure (\<lambda>(column, letter). nat column)") auto

declare getColumnLetter_loop.simps [simp del]

definition getColumnLetter :: "int \<Rightarrow> string" where
  "getColumnLetter column = getColumnLetter_loop column []"

text \<open>
  \<^verbatim>\<open>
  function getMaxRowLength(data) {
    let maxLength = 0;
    for (const row of data) { maxLength = Math.max(maxLength, row.length); }
    return maxLength;
  }
  \<close>
\<close>

definition getMaxRowLength :: "tabular \<Rightarrow> int" where
  "getMaxRowLength data = foldl (\<lambda>maxLength row. max maxLength (int (length row))) 0 data"

text \<open>
  \<^verbatim>\<open>
  function getEndCell(startCell, data) {
    const colMatch = startCell.match(/[A-Z]+/);
    const rowMatch = startCell.match(/\d+/);
    if (!colMatch || !rowMatch) { throw new Error(`Invalid cell reference: ${startCell}`); }
    const startCol = colMatch[0];
    const startRow = parseInt(rowMatch[0]);
    const endRow = startRow + data.length - 1;
    const endCol = getColumnLetter(columnToNumber(startCol) + getMaxRowLength(data) - 1);
    return `${endCol}${endRow}`;
  }
  \<close>
\<close>

definition getEndCell :: "string \<Rightarrow> tabular \<Rightarrow> error + string" where
  "getEndCell startCell data =
     (case match_run isUpperAZ startCell of
        None \<Rightarrow> Inl (Error (''Invalid cell reference: '' @ startCell))
      | Some startCol \<Rightarrow>
          (case match_run isDigit startCell of
             None \<Rightarrow> Inl (Error (''Invalid cell reference: '' @ startCell))
           | Some rowDigits \<Rightarrow>
               (let startRow = parseInt rowDigits;
                    endRow = startRow + int (length data) - 1;
                    endCol = getColumnLetter (columnToNumber startCol + getMaxRowLength data - 1)
                in Inr (endCol @ number_to_string endRow))))"

section \<open>Operation validator\<close>

text \<open>
  An operation is an object, of which the program reads four properties (an absent one
  reads as \<open>JUndefined\<close>). The \<^verbatim>\<open>operations\<close> property of the configuration is an array of
  such objects or a value that is not an array.
\<close>

record operation =
  sheetName :: jsval
  dataPath :: jsval
  operationType :: jsval
  cellId :: jsval

datatype operations_field = NotArray jsval | Array "operation list"

record config =
  templateUrl :: jsval
  newSpreadsheetName :: jsval
  folderId :: jsval
  sharedDriveId :: jsval
  orgDomain :: jsval
  operations :: operations_field

text \<open>
  \<^verbatim>\<open>
  const requiredFields = ["templateUrl", "newSpreadsheetName", "folderId",
                          "sharedDriveId", "orgDomain", "operations"];
  for (const field of requiredFields) {
    if (!config[field]) { throw new Error(`Missing required configuration: ${field}`); }
  }
  \<close>
  \<open>requiredFields\<close> pairs each name with the truth value of \<^verbatim>\<open>config[field]\<close>; an array is
  truthy, also when it is empty.
\<close>

definition requiredFields :: "config \<Rightarrow> (string \<times> bool) list" where
  "requiredFields config =
     [(''templateUrl'', truthy (templateUrl config)),
      (''newSpreadsheetName'', truthy (newSpreadsheetName config)),
      (''folderId'', truthy (folderId config)),
      (''sharedDriveId'', truthy (sharedDriveId config)),
      (''orgDomain'', truthy (orgDomain config)),
      (''operations'', (case operations config of NotArray v \<Rightarrow> truthy v | Array ops \<Rightarrow> True))]"

fun check_requiredFields :: "(string \<times> bool) list \<Rightarrow> error + unit" where
  "check_requiredFields [] = Inr ()"
| "check_requiredFields ((field, present) # rest) =
     (if \<not> present then Inl (Error (''Missing required configuration: '' @ field))
      else check_requiredFields rest)"

text \<open>
  \<^verbatim>\<open>
  config.operations.forEach((operation, index) => {
    if (!operation.sheetName) { throw new Error(`Operation #${index + 1} is missing sheetName`); }
    if (!operation.dataPath) { throw new Error(`Operation #${index + 1} is missing dataPath`); }
    if (!operation.operationType) {
      throw new Error(`Operation #${index + 1} is missing operationType`);
    }
    if (operation.operationType === "replaceAtCell" && !operation.cellId) {
      throw new Error(`Operation #${index + 1} with type 'replaceAtCell' is missing cellId`);
    }
  });
  \<close>
  The index of an array element is below \<open>2^32\<close>.
\<close>

fun validateOperations :: "nat \<Rightarrow> operation list \<Rightarrow> error + unit" where
  "validateOperations index [] = Inr ()"
| "validateOperations index (operation # rest) =
     (if \<not> truthy (sheetName operation)
      then Inl (Error (''Operation #'' @ number_to_string (int index + 1) @ '' is missing sheetName''))
      else if \<not> truthy (dataPath operation)
      then Inl (Error (''Operation #'' @ number_to_string (int index + 1) @ '' is missing dataPath''))
      else if \<not> truthy (operationType operation)
      then Inl (Error (''Operation #'' @ number_to_string (int index + 1) @
                       '' is missing operationType''))
      else if operationType operation = JStr ''replaceAtCell'' \<and> \<not> truthy (cellId operation)
      then Inl (Error (''Operation #'' @ number_to_string (int index + 1) @
                       '' with type 'replaceAtCell' is missing cellId''))
      else validateOperations (Suc index) rest)"

text \<open>
  \<^verbatim>\<open>
  if (!Array.isArray(config.operations) || config.operations.length === 0) {
    throw new Error("Operations must be a non-empty array");
  }
  \<close>
\<close>

definition validateConfig :: "config \<Rightarrow> error + unit" where
  "validateConfig config =
     (case check_requiredFields (requiredFields config) of
        Inl e \<Rightarrow> Inl e
      | Inr u \<Rightarrow>
          (case operations config of
             NotArray v \<Rightarrow> Inl (Error ''Operations must be a non-empty array'')
           | Array ops \<Rightarrow>
               (if ops = [] then Inl (Error ''Operations must be a non-empty array'')
                else validateOperations 0 ops)))"

section \<open>Operation dispatcher\<close>

text \<open>
  What the program does to the outside is a trace of events: the console lines and the
  calls of the Sheets client, in the order they are made. \<open>ErrorLog prefix e\<close> is
  \<^verbatim>\<open>console.error(prefix, e.message)\<close>. Every function of the dispatcher takes the trace so
  far and returns the longer one with its result.

  The environment holds what is not the program's: the remote spreadsheet, the file
  system and the CSV parser (\<^verbatim>\<open>csv-parse/sync\<close>). A remote call rejects or resolves depending
  on the calls made before it (\<open>Some e\<close> is a rejection).
\<close>

datatype event =
    Log string
  | Warn string
  | ErrorLog string error
  | Get string
  | Clear string jsval
  | Update string jsval tabular

record env =
  spreadsheets_get :: "string \<Rightarrow> error + (string \<times> int) list"
  values_clear :: "event list \<Rightarrow> string \<Rightarrow> jsval \<Rightarrow> error option"
  values_update :: "event list \<Rightarrow> string \<Rightarrow> jsval \<Rightarrow> tabular \<Rightarrow> error option"
  path_resolve :: "string \<Rightarrow> string"
  readFileSync :: "string \<Rightarrow> error + string"
  parse :: "string \<Rightarrow> error + tabular"

text \<open>
  \<^verbatim>\<open>
  const sheetsMap = {};
  spreadsheet.data.sheets.forEach((sheet) => {
    sheetsMap[sheet.properties.title] = sheet.properties.sheetId;
  });
  \<close>
  \<^verbatim>\<open>sheetsMap\<close> is a plain object: its own properties are the map below, and a key it does
  not own is looked up in \<^verbatim>\<open>Object.prototype\<close>. Assigning a number to \<^verbatim>\<open>__proto__\<close> creates no
  property.
\<close>

type_synonym sheetsMap = "string \<rightharpoonup> int"

definition build_sheetsMap :: "(string \<times> int) list \<Rightarrow> sheetsMap" where
  "build_sheetsMap sheets =
     foldl (\<lambda>m (title, sheetId). if title = ''__proto__'' then m else m(title \<mapsto> sheetId))
       Map.empty sheets"

definition Object_prototype_keys :: "string list" where
  "Object_prototype_keys =
     [''constructor'', ''__defineGetter__'', ''__defineSetter__'', ''hasOwnProperty'',
      ''__lookupGetter__'', ''__lookupSetter__'', ''isPrototypeOf'', ''propertyIsEnumerable'',
      ''toString'', ''valueOf'', ''__proto__'', ''toLocaleString'']"

text \<open>
  The truth value of \<^verbatim>\<open>sheetsMap[key]\<close>: a sheet id is a number, truthy unless it is 0; an
  inherited property is a function or an object, always truthy; anything else is
  \<^verbatim>\<open>undefined\<close>.
\<close>

definition sheetsMap_truthy :: "sheetsMap \<Rightarrow> string \<Rightarrow> bool" where
  "sheetsMap_truthy m key =
     (case m key of
        Some sheetId \<Rightarrow> sheetId \<noteq> 0
      | None \<Rightarrow> List.member Object_prototype_keys key)"

text \<open>
  \<^verbatim>\<open>
  async function readCsvFile(filePath) {
    try {
      const absolutePath = path.resolve(filePath);
      const fileContent = fs.readFileSync(absolutePath, "utf8");
      const records = parse(fileContent, { skip_empty_lines: true, columns: false });
      console.log(`CSV file read successfully: ${filePath}`);
      return records;
    } catch (error) {
      console.error(`Error reading CSV file (${filePath}):`, error.message);
      throw error;
    }
  }
  \<close>
  \<^verbatim>\<open>path.resolve\<close> throws a \<^verbatim>\<open>TypeError\<close> when its argument is not a string.
  \<open>readCsvFile_try\<close> is the \<^verbatim>\<open>try\<close> block without its console line.
\<close>

definition readCsvFile_try :: "env \<Rightarrow> jsval \<Rightarrow> error + tabular" where
  "readCsvFile_try env filePath =
     (case filePath of
        JStr p \<Rightarrow>
          (case readFileSync env (path_resolve env p) of
             Inl e \<Rightarrow> Inl e
           | Inr fileContent \<Rightarrow> parse env fileContent)
      | _ \<Rightarrow> Inl TypeError)"

definition readCsvFile :: "env \<Rightarrow> jsval \<Rightarrow> event list \<Rightarrow> event list \<times> (error + tabular)" where
  "readCsvFile env filePath tr =
     (case readCsvFile_try env filePath of
        Inr records \<Rightarrow>
          (tr @ [Log (''CSV file read successfully: '' @ ToString filePath)], Inr records)
      | Inl e \<Rightarrow>
          (tr @ [ErrorLog (''Error reading CSV file ('' @ ToString filePath @ ''):'') e], Inl e))"

text \<open>
  \<^verbatim>\<open>
  async function replaceEntireSheet(sheets, spreadsheetId, sheetName, data) {
    try {
      await sheets.spreadsheets.values.clear({ spreadsheetId: spreadsheetId, range: sheetName });
      await sheets.spreadsheets.values.update({ spreadsheetId: spreadsheetId, range: sheetName,
        valueInputOption: "USER_ENTERED", requestBody: { values: data } });
      console.log(`Replaced all data in sheet: ${sheetName}`);
    } catch (error) {
      console.error(`Error replacing sheet data (${sheetName}):`, error.message);
      throw error;
    }
  }
  \<close>
\<close>

definition replaceEntireSheet ::
  "env \<Rightarrow> string \<Rightarrow> jsval \<Rightarrow> tabular \<Rightarrow> event list \<Rightarrow> event list \<times> (error + unit)" where
  "replaceEntireSheet env spreadsheetId sheet data tr =
     (case values_clear env tr spreadsheetId sheet of
        Some e \<Rightarrow>
          (tr @ [Clear spreadsheetId sheet,
                 ErrorLog (''Error replacing sheet data ('' @ ToString sheet @ ''):'') e], Inl e)
      | None \<Rightarrow>
          (case values_update env (tr @ [Clear spreadsheetId sheet]) spreadsheetId sheet data of
             Some e \<Rightarrow>
               (tr @ [Clear spreadsheetId sheet, Update spreadsheetId sheet data,
                      ErrorLog (''Error replacing sheet data ('' @ ToString sheet @ ''):'') e],
                Inl e)
           | None \<Rightarrow>
               (tr @ [Clear spreadsheetId sheet, Update spreadsheetId sheet data,
                      Log (''Replaced all data in sheet: '' @ ToString sheet)], Inr ())))"

text \<open>
  \<^verbatim>\<open>
  async function replaceAtCell(sheets, spreadsheetId, sheetName, cellId, data) {
    try {
      const range = `${sheetName}!${cellId}:${getEndCell(cellId, data)}`;
      await sheets.spreadsheets.values.update({ spreadsheetId: spreadsheetId, range: range,
        valueInputOption: "USER_ENTERED", requestBody: { values: data } });
      console.log(`Replaced data at cell ${cellId} in sheet: ${sheetName}`);
    } catch (error) {
      console.error(`Error replacing data at cell (${sheetName}, ${cellId}):`, error.message);
      throw error;
    }
  }
  \<close>
  \<^verbatim>\<open>startCell.match\<close> on a value that is not a string throws a \<^verbatim>\<open>TypeError\<close>.
\<close>

definition replaceAtCell ::
  "env \<Rightarrow> string \<Rightarrow> jsval \<Rightarrow> jsval \<Rightarrow> tabular \<Rightarrow> event list \<Rightarrow> event list \<times> (error + unit)" where
  "replaceAtCell env spreadsheetId sheet cell data tr =
     (case (case cell of JStr startCell \<Rightarrow> getEndCell startCell data | _ \<Rightarrow> Inl TypeError) of
        Inl e \<Rightarrow>
          (tr @ [ErrorLog (''Error replacing data at cell ('' @ ToString sheet @ '', '' @
                           ToString cell @ ''):'') e], Inl e)
      | Inr endCell \<Rightarrow>
          (let range = JStr (ToString sheet @ ''!'' @ ToString cell @ '':'' @ endCell)
           in case values_update env tr spreadsheetId range data of
                Some e \<Rightarrow>
                  (tr @ [Update spreadsheetId range data,
                         ErrorLog (''Error replacing data at cell ('' @ ToString sheet @ '', '' @
                                   ToString cell @ ''):'') e], Inl e)
              | None \<Rightarrow>
                  (tr @ [Update spreadsheetId range data,
                         Log (''Replaced data at cell '' @ ToString cell @ '' in sheet: '' @
                              ToString sheet)], Inr ())))"

text \<open>
  The body of the loop of \<^verbatim>\<open>processDataOperations\<close>, for one operation:
  \<^verbatim>\<open>
  console.log(`Processing operation for sheet: ${operation.sheetName}`);
  if (!sheetsMap[operation.sheetName]) {
    console.warn(`Sheet "${operation.sheetName}" not found, skipping operation`);
    continue;
  }
  const csvData = await readCsvFile(operation.dataPath);
  switch (operation.operationType) {
    case "replaceEntireSheet":
      await replaceEntireSheet(sheets, spreadsheetId, operation.sheetName, csvData); break;
    case "replaceAtCell":
      await replaceAtCell(sheets, spreadsheetId, operation.sheetName, operation.cellId, csvData);
      break;
    default:
      console.warn(`Unknown operation type: ${operation.operationType}, skipping`);
  }
  \<close>
\<close>

definition processOperation ::
  "env \<Rightarrow> string \<Rightarrow> sheetsMap \<Rightarrow> operation \<Rightarrow> event list \<Rightarrow> event list \<times> (error + unit)" where
  \<open>processOperation env spreadsheetId m operation tr =
     (let tr1 = tr @ [Log (''Processing operation for sheet: '' @ ToString (sheetName operation))]
      in if \<not> sheetsMap_truthy m (ToString (sheetName operation))
         then (tr1 @ [Warn (''Sheet "'' @ ToString (sheetName operation) @
                            ''" not found, skipping operation'')], Inr ())
         else
           (case readCsvFile env (dataPath operation) tr1 of
              (tr2, Inl e) \<Rightarrow> (tr2, Inl e)
            | (tr2, Inr csvData) \<Rightarrow>
                (if operationType operation = JStr ''replaceEntireSheet''
                 then replaceEntireSheet env spreadsheetId (sheetName operation) csvData tr2
                 else if operationType operation = JStr ''replaceAtCell''
                 then replaceAtCell env spreadsheetId (sheetName operation) (cellId operation)
                        csvData tr2
                 else (tr2 @ [Warn (''Unknown operation type: '' @
                                    ToString (operationType operation) @ '', skipping'')],
                       Inr ()))))\<close>

text \<open>\<^verbatim>\<open>for (const operation of operations) { ... }\<close>: a thrown error leaves the loop.\<close>

fun processLoop ::
  "env \<Rightarrow> string \<Rightarrow> sheetsMap \<Rightarrow> operation list \<Rightarrow> event list \<Rightarrow> event list \<times> (error + unit)" where
  "processLoop env spreadsheetId m [] tr = (tr, Inr ())"
| "processLoop env spreadsheetId m (operation # rest) tr =
     (case processOperation env spreadsheetId m operation tr of
        (tr', Inl e) \<Rightarrow> (tr', Inl e)
      | (tr', Inr u) \<Rightarrow> processLoop env spreadsheetId m rest tr')"

text \<open>
  \<^verbatim>\<open>
  async function processDataOperations(sheets, spreadsheetId, operations) {
    try {
      const spreadsheet = await sheets.spreadsheets.get({ spreadsheetId: spreadsheetId });
      const sheetsMap = {}; ...
      for (const operation of operations) { ... }
      console.log("All operations completed successfully");
    } catch (error) {
      console.error("Error processing data operations:", error.message);
      throw error;
    }
  }
  \<close>
\<close>

definition processDataOperations ::
  "env \<Rightarrow> string \<Rightarrow> operation list \<Rightarrow> event list \<Rightarrow> event list \<times> (error + unit)" where
  "processDataOperations env spreadsheetId ops tr =
     (case spreadsheets_get env spreadsheetId of
        Inl e \<Rightarrow>
          (tr @ [Get spreadsheetId, ErrorLog ''Error processing data operations:'' e], Inl e)
      | Inr sheets \<Rightarrow>
          (case processLoop env spreadsheetId (build_sheetsMap sheets) ops (tr @ [Get spreadsheetId]) of
             (tr', Inl e) \<Rightarrow> (tr' @ [ErrorLog ''Error processing data operations:'' e], Inl e)
           | (tr', Inr u) \<Rightarrow> (tr' @ [Log ''All operations completed successfully''], Inr ())))"

section \<open>Notions of the specification\<close>

text \<open>
  The definitions of this section are not code of the program. They write down the notions
  the specification uses, so that the program can be compared with them, and a few example
  inputs.
\<close>

text \<open>
  The value of a bijective base-26 numeral, from its description: the letters are digits
  of value 1 (A) to 26 (Z), and the digit at distance \<open>k\<close> from the right end counts
  \<open>26 ^ k\<close> times its value.
\<close>

primrec bij26_value :: "string \<Rightarrow> int" where
  "bij26_value [] = 0"
| "bij26_value (c # cs) = (of_char c - 64) * 26 ^ length cs + bij26_value cs"

text \<open>
  A reference of the canonical form \<^verbatim>\<open><ColumnLetters><RowDigits>\<close>: a non-empty run of
  uppercase letters, then a non-empty run of digits, and nothing else.
\<close>

definition well_formed_ref :: "string \<Rightarrow> bool" where
  "well_formed_ref s =
     (takeWhile isUpperAZ s \<noteq> [] \<and> dropWhile isUpperAZ s \<noteq> [] \<and>
      list_all isDigit (dropWhile isUpperAZ s))"

text \<open>
  The maximum cell count over all rows of the data (0 when there is no row).
\<close>

definition maxRowLength :: "tabular \<Rightarrow> int" where
  "maxRowLength d = (if d = [] then 0 else int (Max (length ` set d)))"


definition spec_numberToColumn_fails :: "int \<Rightarrow> bool" where
  "spec_numberToColumn_fails n = (n < 1)"

text \<open>
  An operation that passes the four checks of the validator, and a configuration whose
  five scalar properties are present.
\<close>

definition operation_valid :: "operation \<Rightarrow> bool" where
  "operation_valid operation =
     (truthy (sheetName operation) \<and> truthy (dataPath operation) \<and>
      truthy (operationType operation) \<and>
      \<not> (operationType operation = JStr ''replaceAtCell'' \<and> \<not> truthy (cellId operation)))"

definition scalars_present :: "config \<Rightarrow> bool" where
  "scalars_present config =
     (truthy (templateUrl config) \<and> truthy (newSpreadsheetName config) \<and>
      truthy (folderId config) \<and> truthy (sharedDriveId config) \<and> truthy (orgDomain config))"

text \<open>
  The defects of an operation as the specification lists them, a property being missing
  when it is absent from the object.
\<close>

definition spec_absent :: "jsval \<Rightarrow> bool" where
  "spec_absent v = (v = JUndefined)"

definition spec_operation_defect :: "operation \<Rightarrow> bool" where
  "spec_operation_defect operation =
     (spec_absent (sheetName operation) \<or> spec_absent (dataPath operation) \<or>
      spec_absent (operationType operation) \<or>
      (operationType operation = JStr ''replaceAtCell'' \<and> spec_absent (cellId operation)))"

text \<open>
  The operation with every falsy property removed from the object.
\<close>

definition absent_if_falsy :: "jsval \<Rightarrow> jsval" where
  "absent_if_falsy v = (if truthy v then v else JUndefined)"

definition absent_fields :: "operation \<Rightarrow> operation" where
  "absent_fields operation =
     \<lparr>sheetName = absent_if_falsy (sheetName operation),
      dataPath = absent_if_falsy (dataPath operation),
      operationType = absent_if_falsy (operationType operation),
      cellId = absent_if_falsy (cellId operation)\<rparr>"

text \<open>
  Example inputs: a configuration around a list of operations, operations with and
  without defects, and an environment whose spreadsheet has the given sheets, whose
  remote calls all resolve and whose only readable file is \<^verbatim>\<open>d.csv\<close>.
\<close>

definition example_config :: "operation list \<Rightarrow> config" where
  "example_config ops =
     \<lparr>templateUrl = JStr ''https://docs.google.com/spreadsheets/d/1AbCdEfGhIjKlMnOpQrStUvWxYz012345'',
      newSpreadsheetName = JStr ''Report'', folderId = JStr ''folder'',
      sharedDriveId = JStr ''drive'', orgDomain = JStr ''example.com'',
      operations = Array ops\<rparr>"

definition op_good :: operation where
  "op_good = \<lparr>sheetName = JStr ''Sheet1'', dataPath = JStr ''d.csv'',
              operationType = JStr ''replaceEntireSheet'', cellId = JUndefined\<rparr>"

definition op_only_sheetName :: operation where
  "op_only_sheetName = \<lparr>sheetName = JStr ''S'', dataPath = JUndefined,
              operationType = JUndefined, cellId = JUndefined\<rparr>"

definition op_no_cellId :: operation where
  "op_no_cellId = \<lparr>sheetName = JStr ''S'', dataPath = JStr ''d.csv'',
              operationType = JStr ''replaceAtCell'', cellId = JUndefined\<rparr>"

definition op_empty_sheetName :: operation where
  "op_empty_sheetName = \<lparr>sheetName = JStr '''', dataPath = JStr ''d.csv'',
              operationType = JStr ''replaceEntireSheet'', cellId = JUndefined\<rparr>"

definition op_empty_cellId :: operation where
  "op_empty_cellId = \<lparr>sheetName = JStr ''S'', dataPath = JStr ''d.csv'',
              operationType = JStr ''replaceAtCell'', cellId = JStr ''''\<rparr>"

text \<open>
  The console lines of the dispatcher's loop, by name.
\<close>

definition processing_line :: "operation \<Rightarrow> event" where
  "processing_line operation =
     Log (''Processing operation for sheet: '' @ ToString (sheetName operation))"

definition not_found_line :: "operation \<Rightarrow> event" where
  \<open>not_found_line operation =
     Warn (''Sheet "'' @ ToString (sheetName operation) @ ''" not found, skipping operation'')\<close>

definition read_error_line :: "operation \<Rightarrow> error \<Rightarrow> event" where
  "read_error_line operation e =
     ErrorLog (''Error reading CSV file ('' @ ToString (dataPath operation) @ ''):'') e"

definition example_env :: "(string \<times> int) list \<Rightarrow> env" where
  "example_env sheets =
     \<lparr>spreadsheets_get = (\<lambda>spreadsheetId. Inr sheets),
      values_clear = (\<lambda>tr spreadsheetId range. None),
      values_update = (\<lambda>tr spreadsheetId range data. None),
      path_resolve = (\<lambda>p. ''/work/'' @ p),
      readFileSync = (\<lambda>p. if p = ''/work/d.csv'' then Inr ''a,b'' else Inl (Error ''ENOENT'')),
      parse = (\<lambda>content. Inr [[''a'', ''b'']])\<rparr>"

definition op_missing_sheet :: operation where
  "op_missing_sheet = \<lparr>sheetName = JStr ''Missing'', dataPath = JStr ''d.csv'',
              operationType = JStr ''replaceEntireSheet'', cellId = JUndefined\<rparr>"

definition op_unreadable :: operation where
  "op_unreadable = \<lparr>sheetName = JStr ''Sheet1'', dataPath = JStr ''gone.csv'',
              operationType = JStr ''replaceEntireSheet'', cellId = JUndefined\<rparr>"

section \<open>Properties of the cell reference algebra\<close>

lemma columnToNumber_Nil: "columnToNumber [] = 0"
  by (simp add: columnToNumber_def)

lemma columnToNumber_snoc:
  "columnToNumber (xs @ [c]) = columnToNumber xs * 26 + (of_char c - 64)"
  by (simp add: columnToNumber_def)

lemma bij26_value_snoc: "bij26_value (xs @ [c]) = bij26_value xs * 26 + (of_char c - 64)"
  by (induction xs) (simp_all add: algebra_simps)

lemma columnToNumber_bij26: "columnToNumber s = bij26_value s"
  by (induction s rule: rev_induct) (simp_all add: columnToNumber_Nil columnToNumber_snoc bij26_value_snoc)

lemma columnToNumber_nonneg: "\<forall>c\<in>set s. isUpperAZ c \<Longrightarrow> 0 \<le> columnToNumber s"
proof (induction s rule: rev_induct)
  case Nil
  then show ?case by (simp add: columnToNumber_Nil)
next
  case (snoc c s)
  then have "0 \<le> columnToNumber s" by simp
  moreover have "65 \<le> (of_char c :: int)" using snoc.prems by (simp add: isUpperAZ_def)
  ultimately show ?case by (simp add: columnToNumber_snoc)
qed

lemma columnToNumber_pos:
  assumes "s \<noteq> []" and "\<forall>c\<in>set s. isUpperAZ c"
  shows "1 \<le> columnToNumber s"
proof -
  obtain xs c where s: "s = xs @ [c]" using assms(1) by (cases s rule: rev_cases) auto
  have "0 \<le> columnToNumber xs" using assms(2) s by (simp add: columnToNumber_nonneg)
  moreover have "65 \<le> (of_char c :: int)" using assms(2) s by (simp add: isUpperAZ_def)
  ultimately show ?thesis by (simp add: s columnToNumber_snoc)
qed

lemma getColumnLetter_loop_step:
  "0 < n \<Longrightarrow> getColumnLetter_loop n acc =
     getColumnLetter_loop ((n - 1) div 26) (char_of ((n - 1) mod 26 + 65) # acc)"
proof -
  assume pos: "0 < n"
  have "(n - (n - 1) mod 26 - 1) div 26 = (n - 1) div 26"
  proof -
    have "n - (n - 1) mod 26 - 1 = 26 * ((n - 1) div 26)"
      using mult_div_mod_eq[of 26 "n - 1"] by linarith
    then show ?thesis by simp
  qed
  with pos show ?thesis
    by (subst getColumnLetter_loop.simps) (simp add: Let_def)
qed

lemma getColumnLetter_loop_stop: "n \<le> 0 \<Longrightarrow> getColumnLetter_loop n acc = acc"
  by (subst getColumnLetter_loop.simps) simp

lemma getColumnLetter_loop_acc:
  "getColumnLetter_loop n acc = getColumnLetter_loop n [] @ acc"
proof (induction "nat n" arbitrary: n acc rule: less_induct)
  case less
  show ?case
  proof (cases "0 < n")
    case True
    let ?m = "(n - 1) div 26"
    let ?c = "char_of ((n - 1) mod 26 + 65) :: char"
    have lt: "nat ?m < nat n" using True by simp
    have "getColumnLetter_loop n acc = getColumnLetter_loop ?m (?c # acc)"
      using True by (rule getColumnLetter_loop_step)
    also have "\<dots> = getColumnLetter_loop ?m [] @ (?c # acc)"
      using less[OF lt] .
    also have "\<dots> = (getColumnLetter_loop ?m [] @ [?c]) @ acc" by simp
    also have "getColumnLetter_loop ?m [] @ [?c] = getColumnLetter_loop ?m [?c]"
      using less[OF lt, of "[?c]"] by simp
    also have "\<dots> = getColumnLetter_loop n []"
      using True by (rule getColumnLetter_loop_step[symmetric])
    finally show ?thesis .
  next
    case False
    then show ?thesis by (simp add: getColumnLetter_loop_stop)
  qed
qed

lemma getColumnLetter_pos:
  "0 < n \<Longrightarrow> getColumnLetter n = getColumnLetter ((n - 1) div 26) @ [char_of ((n - 1) mod 26 + 65)]"
  unfolding getColumnLetter_def
  by (subst getColumnLetter_loop_step, assumption, subst getColumnLetter_loop_acc, rule refl)

lemma getColumnLetter_nonpos: "n \<le> 0 \<Longrightarrow> getColumnLetter n = []"
  by (simp add: getColumnLetter_def getColumnLetter_loop_stop)

lemma of_char_letter: "0 \<le> t \<Longrightarrow> t < 26 \<Longrightarrow> (of_char (char_of (t + 65 :: int)) :: int) = t + 65"
  by simp

lemma columnToNumber_getColumnLetter: "0 \<le> n \<Longrightarrow> columnToNumber (getColumnLetter n) = n"
proof (induction "nat n" arbitrary: n rule: less_induct)
  case less
  show ?case
  proof (cases "0 < n")
    case True
    let ?m = "(n - 1) div 26"
    let ?t = "(n - 1) mod 26"
    have lt: "nat ?m < nat n" and m0: "0 \<le> ?m" using True by simp_all
    have t: "0 \<le> ?t" "?t < 26" by simp_all
    have "columnToNumber (getColumnLetter n) = columnToNumber (getColumnLetter ?m) * 26 + (of_char (char_of (?t + 65)) - 64)"
      by (simp only: getColumnLetter_pos[OF True] columnToNumber_snoc)
    also have "\<dots> = ?m * 26 + (?t + 1)"
      using less(1)[OF lt m0] of_char_letter[OF t] by simp
    also have "\<dots> = n" by simp
    finally show ?thesis .
  next
    case False
    with less.prems have "n = 0" by simp
    then show ?thesis by (simp add: getColumnLetter_nonpos columnToNumber_Nil)
  qed
qed

lemma getColumnLetter_upper: "c \<in> set (getColumnLetter n) \<Longrightarrow> isUpperAZ c"
proof (induction "nat n" arbitrary: n rule: less_induct)
  case less
  show ?case
  proof (cases "0 < n")
    case True
    let ?m = "(n - 1) div 26"
    let ?t = "(n - 1) mod 26"
    have lt: "nat ?m < nat n" using True by simp
    have t: "0 \<le> ?t" "?t < 26" by simp_all
    have "isUpperAZ (char_of (?t + 65))"
      unfolding isUpperAZ_def using of_char_letter[OF t] t by simp
    with less(1)[OF lt] less.prems show ?thesis
      by (auto simp: getColumnLetter_pos[OF True])
  next
    case False
    with less.prems show ?thesis by (simp add: getColumnLetter_nonpos)
  qed
qed

lemma getColumnLetter_nonempty: "0 < n \<Longrightarrow> getColumnLetter n \<noteq> []"
  by (simp add: getColumnLetter_pos)

lemma getColumnLetter_columnToNumber:
  "\<forall>c\<in>set s. isUpperAZ c \<Longrightarrow> getColumnLetter (columnToNumber s) = s"
proof (induction s rule: rev_induct)
  case Nil
  then show ?case by (simp add: columnToNumber_Nil getColumnLetter_nonpos)
next
  case (snoc c s)
  let ?N = "columnToNumber s"
  let ?d = "(of_char c :: int) - 64"
  have up: "\<forall>c\<in>set s. isUpperAZ c" using snoc.prems by simp
  have N0: "0 \<le> ?N" using up by (rule columnToNumber_nonneg)
  have d: "1 \<le> ?d" "?d \<le> 26" using snoc.prems by (simp_all add: isUpperAZ_def)
  have pos: "0 < ?N * 26 + ?d" using N0 d by simp
  have "(?N * 26 + ?d - 1) div 26 = (?d - 1 + ?N * 26) div 26" by (simp add: algebra_simps)
  also have "\<dots> = (?d - 1) div 26 + ?N" by simp
  also have "\<dots> = ?N" using d by simp
  finally have dv: "(?N * 26 + ?d - 1) div 26 = ?N" .
  have "(?N * 26 + ?d - 1) mod 26 = (?d - 1 + ?N * 26) mod 26" by (simp add: algebra_simps)
  also have "\<dots> = (?d - 1) mod 26" by (simp only: mod_mult_self1)
  also have "\<dots> = ?d - 1" using d by simp
  finally have md: "(?N * 26 + ?d - 1) mod 26 = ?d - 1" .
  have "getColumnLetter (columnToNumber (s @ [c])) = getColumnLetter ?N @ [char_of (?d - 1 + 65)]"
    by (simp only: columnToNumber_snoc getColumnLetter_pos[OF pos] dv md)
  also have "\<dots> = s @ [c]" using snoc.IH[OF up] by simp
  finally show ?case .
qed

subsection \<open>Digits, pattern matches and row lengths\<close>

lemma parseInt_Nil: "parseInt [] = 0" by (simp add: parseInt_def)
lemma parseInt_snoc: "parseInt (ds @ [c]) = parseInt ds * 10 + (of_char c - 48)"
  by (simp add: parseInt_def)

lemma of_char_digit: "d < 10 \<Longrightarrow> (of_char (char_of (d + 48 :: nat)) :: int) = int d + 48"
proof -
  assume "d < 10"
  then have m: "(d + 48) mod 256 = d + 48" by simp
  have "(of_char (char_of (d + 48)) :: int) = int (of_char (char_of (d + 48)))"
    by (simp only: of_nat_of_char)
  also have "\<dots> = int ((d + 48) mod 256)" by (simp only: of_char_of)
  also have "\<dots> = int d + 48" by (simp add: m)
  finally show ?thesis .
qed

lemma digits_small: "n < 10 \<Longrightarrow> digits n = [char_of (n + 48)]"
  by (subst digits.simps) simp

lemma digits_large: "\<not> n < 10 \<Longrightarrow> digits n = digits (n div 10) @ [char_of (n mod 10 + 48)]"
  by (subst digits.simps) simp

lemma parseInt_digits: "parseInt (digits n) = int n"
proof (induction n rule: less_induct)
  case (less n)
  show ?case
  proof (cases "n < 10")
    case True
    then show ?thesis
      using parseInt_snoc[of "[]"] by (simp add: digits_small of_char_digit parseInt_Nil)
  next
    case False
    then have lt: "n div 10 < n" by simp
    have "parseInt (digits n) = parseInt (digits (n div 10)) * 10 + (of_char (char_of (n mod 10 + 48)) - 48)"
      by (simp only: digits_large[OF False] parseInt_snoc)
    also have "\<dots> = int (n div 10) * 10 + int (n mod 10)"
      using less[OF lt] of_char_digit[of "n mod 10"] by simp
    also have "\<dots> = int n" by presburger
    finally show ?thesis .
  qed
qed

lemma digits_isDigit: "c \<in> set (digits n) \<Longrightarrow> isDigit c"
proof (induction n rule: less_induct)
  case (less n)
  show ?case
  proof (cases "n < 10")
    case True
    with less.prems show ?thesis
      using of_char_digit[of n] by (simp add: digits_small isDigit_def)
  next
    case False
    then have lt: "n div 10 < n" by simp
    have "isDigit (char_of (n mod 10 + 48))"
      using of_char_digit[of "n mod 10"] by (simp add: isDigit_def)
    with less.IH[OF lt] less.prems show ?thesis
      by (auto simp: digits_large[OF False])
  qed
qed

lemma digits_nonempty: "digits n \<noteq> []"
  by (cases "n < 10") (simp_all add: digits_small digits_large)

lemma parseInt_number_to_string: "0 \<le> n \<Longrightarrow> parseInt (number_to_string n) = n"
  by (simp add: number_to_string_def parseInt_digits)

lemma upper_not_digit: "isUpperAZ c \<Longrightarrow> \<not> isDigit c"
  by (simp add: isUpperAZ_def isDigit_def)

lemma match_run_None: "match_run p s = None \<longleftrightarrow> (\<forall>c\<in>set s. \<not> p c)"
proof -
  have "dropWhile (\<lambda>c. \<not> p c) s = [] \<longleftrightarrow> (\<forall>c\<in>set s. \<not> p c)"
    by (simp add: dropWhile_eq_Nil_conv)
  moreover have "match_run p s = None \<longleftrightarrow> dropWhile (\<lambda>c. \<not> p c) s = []"
    by (cases "dropWhile (\<lambda>c. \<not> p c) s") (simp_all add: match_run_def del: dropWhile_eq_Nil_conv)
  ultimately show ?thesis by simp
qed

lemma match_run_prefix:
  assumes "c \<noteq> []" and "\<forall>x\<in>set c. p x" and "r = [] \<or> \<not> p (hd r)"
  shows "match_run p (c @ r) = Some c"
proof -
  obtain x xs where c: "c = x # xs" using assms(1) by (cases c) auto
  have px: "p x" using assms(2) c by simp
  have tw: "takeWhile p (c @ r) = c"
  proof (cases r)
    case Nil
    then show ?thesis using assms(2) by simp
  next
    case (Cons y ys)
    with assms(3) have "\<not> p y" by simp
    with Cons assms(2) show ?thesis by (simp add: takeWhile_append2)
  qed
  have "dropWhile (\<lambda>c. \<not> p c) (c @ r) = c @ r" using px c by simp
  then show ?thesis using tw c by (simp add: match_run_def)
qed

lemma match_run_suffix:
  assumes "\<forall>x\<in>set c. \<not> p x" and "r \<noteq> []" and "\<forall>x\<in>set r. p x"
  shows "match_run p (c @ r) = Some r"
proof -
  have "dropWhile (\<lambda>c. \<not> p c) (c @ r) = dropWhile (\<lambda>c. \<not> p c) r"
    using assms(1) by (simp add: dropWhile_append2)
  also have "\<dots> = r" using assms(2,3) by (cases r) simp_all
  finally have dw: "dropWhile (\<lambda>c. \<not> p c) (c @ r) = r" .
  have "takeWhile p r = r" using assms(3) by simp
  with dw assms(2) show ?thesis by (cases r) (simp_all add: match_run_def)
qed

lemma foldl_max_ge: "a \<le> foldl (\<lambda>m row. max m (int (length row))) a d"
proof (induction d arbitrary: a)
  case Nil
  then show ?case by simp
next
  case (Cons row d)
  have "a \<le> max a (int (length row))" by simp
  also have "\<dots> \<le> foldl (\<lambda>m row. max m (int (length row))) (max a (int (length row))) d"
    by (rule Cons.IH)
  finally show ?case by simp
qed

lemma foldl_max_Max:
  "foldl (\<lambda>m row. max m (int (length row))) a d = Max (insert a ((\<lambda>row. int (length row)) ` set d))"
proof (induction d arbitrary: a)
  case Nil
  then show ?case by simp
next
  case (Cons row d)
  let ?S = "(\<lambda>row. int (length row)) ` set d"
  have fin: "finite ?S" by simp
  have "Max (insert (max a (int (length row))) ?S) = Max (insert a (insert (int (length row)) ?S))"
  proof (cases "?S = {}")
    case True
    then show ?thesis by simp
  next
    case False
    then show ?thesis using fin by (simp add: max.assoc)
  qed
  with Cons.IH[of "max a (int (length row))"] show ?case by simp
qed

lemma getMaxRowLength_Nil: "getMaxRowLength [] = 0"
  by (simp add: getMaxRowLength_def)

lemma getMaxRowLength_nonneg: "0 \<le> getMaxRowLength d"
  unfolding getMaxRowLength_def by (rule foldl_max_ge)

lemma getMaxRowLength_Max:
  assumes "d \<noteq> []"
  shows "getMaxRowLength d = int (Max (length ` set d))"
proof -
  let ?S = "(\<lambda>row. int (length row)) ` set d"
  have ne: "?S \<noteq> {}" and fin: "finite ?S" using assms by simp_all
  have "getMaxRowLength d = Max (insert 0 ?S)"
    by (simp only: getMaxRowLength_def foldl_max_Max)
  also have "\<dots> = max 0 (Max ?S)" using ne fin by simp
  also have "\<dots> = Max ?S"
  proof -
    obtain row where "row \<in> set d" using assms by (cases d) auto
    then have "int (length row) \<in> ?S" by (rule imageI)
    then obtain x where x: "x \<in> ?S" ..
    then have "0 \<le> x" by auto
    moreover have "x \<le> Max ?S" using fin x by (rule Max_ge)
    ultimately show ?thesis by simp
  qed
  also have "?S = int ` (length ` set d)" by (simp only: image_image)
  also have "Max (int ` (length ` set d)) = int (Max (length ` set d))"
  proof (rule mono_Max_commute[symmetric])
    show "mono int" by (simp add: mono_def)
    show "finite (length ` set d)" by simp
    show "length ` set d \<noteq> {}" using assms by simp
  qed
  finally show ?thesis .
qed

subsection \<open>The end cell\<close>

lemma getMaxRowLength_spec: "getMaxRowLength d = maxRowLength d"
  by (simp add: maxRowLength_def getMaxRowLength_Nil getMaxRowLength_Max)

lemma well_formed_ref_split:
  assumes "c \<noteq> []" "\<forall>x\<in>set c. isUpperAZ x" "r \<noteq> []" "\<forall>x\<in>set r. isDigit x"
  shows "well_formed_ref (c @ r)"
proof -
  obtain y ys where r: "r = y # ys" using assms(3) by (cases r) auto
  have "\<not> isUpperAZ y" using assms(4) r upper_not_digit by auto
  then have "takeWhile isUpperAZ (c @ r) = c" "dropWhile isUpperAZ (c @ r) = r"
    using assms(2) r by (simp_all add: takeWhile_append2 dropWhile_append2)
  then show ?thesis using assms by (simp add: well_formed_ref_def list_all_iff)
qed

lemma well_formed_ref_parts:
  assumes "well_formed_ref s"
  shows "\<exists>c r. s = c @ r \<and> c \<noteq> [] \<and> (\<forall>x\<in>set c. isUpperAZ x) \<and> r \<noteq> [] \<and> (\<forall>x\<in>set r. isDigit x)"
proof -
  let ?c = "takeWhile isUpperAZ s" and ?r = "dropWhile isUpperAZ s"
  have "s = ?c @ ?r" by simp
  moreover have "\<forall>x\<in>set ?c. isUpperAZ x" by (auto dest: set_takeWhileD)
  ultimately show ?thesis using assms unfolding well_formed_ref_def list_all_iff by blast
qed

lemma getEndCell_ref:
  assumes "c \<noteq> []" "\<forall>x\<in>set c. isUpperAZ x" "r \<noteq> []" "\<forall>x\<in>set r. isDigit x"
  shows "getEndCell (c @ r) d =
     Inr (getColumnLetter (columnToNumber c + getMaxRowLength d - 1) @
          number_to_string (parseInt r + int (length d) - 1))"
proof -
  have nd: "\<forall>x\<in>set c. \<not> isDigit x" using assms(2) upper_not_digit by blast
  have "r = [] \<or> \<not> isUpperAZ (hd r)" using assms(3,4) upper_not_digit by (cases r) auto
  then have "match_run isUpperAZ (c @ r) = Some c"
    using assms(1,2) by (intro match_run_prefix) 
  moreover have "match_run isDigit (c @ r) = Some r"
    using nd assms(3,4) by (rule match_run_suffix)
  ultimately show ?thesis by (simp add: getEndCell_def Let_def)
qed

lemma getEndCell_fails_iff:
  "(\<exists>e. getEndCell s d = Inl e) \<longleftrightarrow> (\<forall>c\<in>set s. \<not> isUpperAZ c) \<or> (\<forall>c\<in>set s. \<not> isDigit c)"
  unfolding match_run_None[symmetric]
  by (auto simp: getEndCell_def Let_def split: option.splits)

lemma getEndCell_error:
  "getEndCell s d = Inl e \<Longrightarrow> e = Error (''Invalid cell reference: '' @ s)"
  by (auto simp: getEndCell_def Let_def split: option.splits)

lemma number_to_string_nonneg:
  "0 \<le> n \<Longrightarrow> number_to_string n \<noteq> [] \<and> (\<forall>c\<in>set (number_to_string n). isDigit c)"
  by (auto simp: number_to_string_def digits_nonempty digits_isDigit)

lemma number_to_string_head_not_upper:
  "takeWhile isUpperAZ (number_to_string n) = []"
proof (cases "n < 0")
  case True
  have "\<not> isUpperAZ CHR ''-''" by (simp add: isUpperAZ_def)
  with True show ?thesis by (simp add: number_to_string_def)
next
  case False
  then have n: "number_to_string n = digits (nat n)" by (simp add: number_to_string_def)
  obtain x xs where d: "digits (nat n) = x # xs" using digits_nonempty by (cases "digits (nat n)") auto
  then have "isDigit x" using digits_isDigit[of x "nat n"] by simp
  then have "\<not> isUpperAZ x" using upper_not_digit by blast
  then show ?thesis by (simp add: n d)
qed

subsection \<open>The size of the sums, and the leftmost run\<close>






lemma columnToNumber_letters_bound:
  "\<forall>c\<in>set s. isUpperAZ c \<Longrightarrow> columnToNumber s * 25 \<le> 26 * (26 ^ length s - 1)"
proof (induction s rule: rev_induct)
  case Nil
  then show ?case by (simp add: columnToNumber_Nil)
next
  case (snoc c s)
  have d: "(of_char c :: int) - 64 \<le> 26" using snoc.prems by (simp add: isUpperAZ_def)
  have "columnToNumber s * 25 \<le> 26 * (26 ^ length s - 1)" using snoc by simp
  then have "columnToNumber (s @ [c]) * 25 \<le> (26 * (26 ^ length s - 1)) * 26 + 26 * 25"
    using d by (simp add: columnToNumber_snoc)
  also have "\<dots> = 26 * (26 ^ length (s @ [c]) - 1)" by (simp add: algebra_simps)
  finally show ?case .
qed

lemma bij26_value_eleven_letters:
  assumes "\<forall>c\<in>set s. isUpperAZ c" and "length s \<le> 11"
  shows "bij26_value s < 2 ^ 53"
proof -
  have "(26::int) ^ length s \<le> 26 ^ 11" using assms(2) by (intro power_increasing) simp_all
  then have "26 * ((26::int) ^ length s - 1) \<le> 26 * (26 ^ 11 - 1)" by simp
  with columnToNumber_letters_bound[OF assms(1)]
  have "columnToNumber s * 25 \<le> 26 * (26 ^ 11 - 1)" by (rule order_trans)
  then show ?thesis by (simp add: columnToNumber_bij26[symmetric])
qed

lemma match_run_Some_iff:
  "match_run p s = Some m \<longleftrightarrow>
     m \<noteq> [] \<and> (\<exists>pre post. s = pre @ m @ post \<and> (\<forall>x\<in>set pre. \<not> p x) \<and>
                   (\<forall>x\<in>set m. p x) \<and> (post = [] \<or> \<not> p (hd post)))"
proof
  assume a: "match_run p s = Some m"
  let ?pre = "takeWhile (\<lambda>c. \<not> p c) s" and ?rest = "dropWhile (\<lambda>c. \<not> p c) s"
  obtain x xs where r: "?rest = x # xs" and m: "m = takeWhile p (x # xs)"
    using a by (cases ?rest) (simp_all add: match_run_def del: dropWhile_eq_Nil_conv)
  have px: "p x" using r hd_dropWhile[of "\<lambda>c. \<not> p c" s] by (metis list.sel(1) list.distinct(1))
  have "m \<noteq> []" using m px by simp
  moreover have "s = ?pre @ m @ dropWhile p ?rest" using r m by (metis takeWhile_dropWhile_id)
  moreover have "\<forall>x\<in>set ?pre. \<not> p x" by (auto dest: set_takeWhileD)
  moreover have "\<forall>x\<in>set m. p x" using m by (auto dest: set_takeWhileD)
  moreover have "dropWhile p ?rest = [] \<or> \<not> p (hd (dropWhile p ?rest))"
    using hd_dropWhile[of p ?rest] by blast
  ultimately show "m \<noteq> [] \<and> (\<exists>pre post. s = pre @ m @ post \<and> (\<forall>x\<in>set pre. \<not> p x) \<and>
                   (\<forall>x\<in>set m. p x) \<and> (post = [] \<or> \<not> p (hd post)))"
    by blast
next
  assume "m \<noteq> [] \<and> (\<exists>pre post. s = pre @ m @ post \<and> (\<forall>x\<in>set pre. \<not> p x) \<and>
                   (\<forall>x\<in>set m. p x) \<and> (post = [] \<or> \<not> p (hd post)))"
  then obtain pre post where m: "m \<noteq> []" and s: "s = pre @ m @ post"
    and pre: "\<forall>x\<in>set pre. \<not> p x" and all: "\<forall>x\<in>set m. p x"
    and post: "post = [] \<or> \<not> p (hd post)" by blast
  have "match_run p (pre @ (m @ post)) = match_run p (m @ post)"
  proof -
    have "dropWhile (\<lambda>c. \<not> p c) (pre @ (m @ post)) = dropWhile (\<lambda>c. \<not> p c) (m @ post)"
      using pre by (simp add: dropWhile_append2)
    then show ?thesis by (simp only: match_run_def)
  qed
  also have "\<dots> = Some m" using m all post by (rule match_run_prefix)
  finally show "match_run p s = Some m" using s by simp
qed

section \<open>Properties of the validator\<close>

lemma validateConfig_operations:
  "scalars_present config \<Longrightarrow> operations config = Array ops \<Longrightarrow>
   validateConfig config =
     (if ops = [] then Inl (Error ''Operations must be a non-empty array'')
      else validateOperations 0 ops)"
  by (simp add: validateConfig_def requiredFields_def scalars_present_def)

lemma validateOperations_valid_prefix:
  "list_all operation_valid pre \<Longrightarrow>
   validateOperations index (pre @ rest) = validateOperations (index + length pre) rest"
  by (induction pre arbitrary: index) (auto simp: operation_valid_def)

lemma validateOperations_passes_iff:
  "(\<exists>u. validateOperations index ops = Inr u) \<longleftrightarrow> list_all operation_valid ops"
  by (induction ops arbitrary: index) (auto simp: operation_valid_def)

lemma truthy_absent_if_falsy: "truthy (absent_if_falsy v) = truthy v"
  by (simp add: absent_if_falsy_def)

lemma absent_if_falsy_eq_Str: "s \<noteq> [] \<Longrightarrow> absent_if_falsy v = JStr s \<longleftrightarrow> v = JStr s"
  by (cases v) (auto simp: absent_if_falsy_def)

lemma validateOperations_absent_fields:
  "validateOperations index (map absent_fields ops) = validateOperations index ops"
  by (induction ops arbitrary: index)
     (simp_all add: absent_fields_def truthy_absent_if_falsy absent_if_falsy_eq_Str)

lemma validateOperations_first_defect:
  assumes "list_all operation_valid pre"
  shows "validateOperations 0 (pre @ operation # post) =
     (if \<not> truthy (sheetName operation)
      then Inl (Error (''Operation #'' @ number_to_string (int (length pre) + 1) @ '' is missing sheetName''))
      else if \<not> truthy (dataPath operation)
      then Inl (Error (''Operation #'' @ number_to_string (int (length pre) + 1) @ '' is missing dataPath''))
      else if \<not> truthy (operationType operation)
      then Inl (Error (''Operation #'' @ number_to_string (int (length pre) + 1) @
                       '' is missing operationType''))
      else if operationType operation = JStr ''replaceAtCell'' \<and> \<not> truthy (cellId operation)
      then Inl (Error (''Operation #'' @ number_to_string (int (length pre) + 1) @
                       '' with type 'replaceAtCell' is missing cellId''))
      else validateOperations (Suc (length pre)) post)"
  using validateOperations_valid_prefix[OF assms, of 0 "operation # post"] by simp

subsection \<open>Falsy values and the examples\<close>

lemma number_to_string_1: "number_to_string 1 = ''1''"
  by code_simp

lemma falsy_values:
  "\<not> truthy v \<longleftrightarrow> v = JUndefined \<or> v = JNull \<or> v = JBool False \<or> v = JNum 0 \<or> v = JNaN \<or> v = JStr ''''"
  by (cases v) auto

lemma validateConfig_absent_fields:
  assumes "operations config = Array ops"
  shows "validateConfig (config\<lparr>operations := Array (map absent_fields ops)\<rparr>) = validateConfig config"
proof -
  have "requiredFields (config\<lparr>operations := Array (map absent_fields ops)\<rparr>) = requiredFields config"
    using assms by (simp add: requiredFields_def)
  then show ?thesis
    using assms by (simp add: validateConfig_def validateOperations_absent_fields split: sum.split)
qed

lemma number_to_string_2: "number_to_string 2 = ''2''"
  by code_simp

lemma example_config_pre:
  "scalars_present (example_config ops) \<and> operations (example_config ops) = Array ops"
  by (simp add: example_config_def scalars_present_def)

lemma op_good_valid: "list_all operation_valid [op_good]"
  by (simp add: op_good_def operation_valid_def)

section \<open>Properties of the dispatcher\<close>

lemma processOperation_skip:
  "\<not> sheetsMap_truthy m (ToString (sheetName operation)) \<Longrightarrow>
   processOperation env sid m operation tr =
     (tr @ [processing_line operation, not_found_line operation], Inr ())"
  by (simp add: processOperation_def processing_line_def not_found_line_def)

lemma processOperation_load_fails:
  "sheetsMap_truthy m (ToString (sheetName operation)) \<Longrightarrow>
   readCsvFile_try env (dataPath operation) = Inl e \<Longrightarrow>
   processOperation env sid m operation tr =
     (tr @ [processing_line operation, read_error_line operation e], Inl e)"
  by (simp add: processOperation_def readCsvFile_def processing_line_def read_error_line_def)

lemma processLoop_append:
  "processLoop env sid m (xs @ ys) tr =
     (case processLoop env sid m xs tr of
        (tr', Inl e) \<Rightarrow> (tr', Inl e)
      | (tr', Inr u) \<Rightarrow> processLoop env sid m ys tr')"
  by (induction xs arbitrary: tr) (auto split: prod.splits sum.splits)

lemma replaceEntireSheet_extends: "\<exists>ev. fst (replaceEntireSheet env sid sheet data tr) = tr @ ev"
  by (simp add: replaceEntireSheet_def split: option.split)

lemma replaceAtCell_extends: "\<exists>ev. fst (replaceAtCell env sid sheet cell data tr) = tr @ ev"
  by (simp add: replaceAtCell_def Let_def split: option.split sum.split)

lemma readCsvFile_extends: "\<exists>ev. fst (readCsvFile env p tr) = tr @ ev"
  by (simp add: readCsvFile_def split: sum.split)

lemma processOperation_extends: "\<exists>ev. fst (processOperation env sid m operation tr) = tr @ ev"
proof (cases "sheetsMap_truthy m (ToString (sheetName operation))")
  case False
  then show ?thesis by (simp add: processOperation_skip)
next
  case True
  let ?tr1 = "tr @ [processing_line operation]"
  obtain tr2 r where rd: "readCsvFile env (dataPath operation) ?tr1 = (tr2, r)"
    by (cases "readCsvFile env (dataPath operation) ?tr1") 
  obtain ev where ev: "tr2 = ?tr1 @ ev"
    using readCsvFile_extends[of env "dataPath operation" ?tr1] rd by auto
  show ?thesis
  proof (cases r)
    case (Inl e)
    then show ?thesis using True rd ev
      by (simp add: processOperation_def processing_line_def)
  next
    case (Inr csvData)
    obtain ev1 where "fst (replaceEntireSheet env sid (sheetName operation) csvData tr2) = tr2 @ ev1"
      using replaceEntireSheet_extends by blast
    moreover obtain ev2 where "fst (replaceAtCell env sid (sheetName operation) (cellId operation) csvData tr2) = tr2 @ ev2"
      using replaceAtCell_extends by blast
    ultimately show ?thesis using True rd ev Inr
      by (simp add: processOperation_def processing_line_def)
  qed
qed

lemma processLoop_extends: "\<exists>ev. fst (processLoop env sid m ops tr) = tr @ ev"
proof (induction ops arbitrary: tr)
  case Nil
  then show ?case by simp
next
  case (Cons operation rest)
  obtain tr' r where po: "processOperation env sid m operation tr = (tr', r)"
    by (cases "processOperation env sid m operation tr")
  obtain ev where ev: "tr' = tr @ ev"
    using processOperation_extends[of env sid m operation tr] po by auto
  show ?case
  proof (cases r)
    case (Inl e)
    then show ?thesis using po ev by simp
  next
    case (Inr u)
    obtain ev' where "fst (processLoop env sid m rest tr') = tr' @ ev'"
      using Cons.IH by blast
    then show ?thesis using po ev Inr by simp
  qed
qed

lemma build_sheetsMap_single:
  "title \<noteq> ''__proto__'' \<Longrightarrow> build_sheetsMap [(title, sheetId)] = [title \<mapsto> sheetId]"
  by (simp add: build_sheetsMap_def)

lemma Sheet1_id_zero_falsy: "\<not> sheetsMap_truthy (build_sheetsMap [(''Sheet1'', 0)]) ''Sheet1''"
  by (simp add: build_sheetsMap_single sheetsMap_truthy_def)

lemma Missing_falsy: "\<not> sheetsMap_truthy (build_sheetsMap [(''Sheet1'', i)]) ''Missing''"
  by (simp add: build_sheetsMap_single sheetsMap_truthy_def Object_prototype_keys_def)

lemma Sheet1_nonzero_truthy: "i \<noteq> 0 \<Longrightarrow> sheetsMap_truthy (build_sheetsMap [(''Sheet1'', i)]) ''Sheet1''"
  by (simp add: build_sheetsMap_single sheetsMap_truthy_def)

text \<open>
  A sheet with an id other than 0, in the example environment: the operation on the
  absent sheet is skipped with a warning, and the operation on \<^verbatim>\<open>Sheet1\<close> clears the sheet
  and writes the data.
\<close>

lemma dispatch_sheet_id_nonzero:
  "i \<noteq> 0 \<Longrightarrow>
   processDataOperations (example_env [(''Sheet1'', i)]) ''doc'' [op_missing_sheet, op_good] [] =
     ([Get ''doc'',
       Log ''Processing operation for sheet: Missing'',
       Warn (''Sheet '' @ [CHR 0x22] @ ''Missing'' @ [CHR 0x22] @ '' not found, skipping operation''),
       Log ''Processing operation for sheet: Sheet1'',
       Log ''CSV file read successfully: d.csv'',
       Clear ''doc'' (JStr ''Sheet1''),
       Update ''doc'' (JStr ''Sheet1'') [[''a'', ''b'']],
       Log ''Replaced all data in sheet: Sheet1'',
       Log ''All operations completed successfully''],
      Inr ())"
proof -
  assume nz: "i \<noteq> 0"
  let ?m = "build_sheetsMap [(''Sheet1'', i)]"
  have s1: "\<not> sheetsMap_truthy ?m (ToString (sheetName op_missing_sheet))"
    using Missing_falsy by (simp add: op_missing_sheet_def)
  have s2: "sheetsMap_truthy ?m ''Sheet1''"
    using nz by (rule Sheet1_nonzero_truthy)
  have r: "readCsvFile_try (example_env [(''Sheet1'', i)]) (JStr ''d.csv'') = Inr [[''a'', ''b'']]"
    by (simp add: readCsvFile_try_def example_env_def)
  have "processOperation (example_env [(''Sheet1'', i)]) ''doc'' ?m op_good tr =
     (tr @ [Log ''Processing operation for sheet: Sheet1'',
       Log ''CSV file read successfully: d.csv'',
       Clear ''doc'' (JStr ''Sheet1''),
       Update ''doc'' (JStr ''Sheet1'') [[''a'', ''b'']],
       Log ''Replaced all data in sheet: Sheet1''], Inr ())" for tr
    using s2 r by (simp add: processOperation_def op_good_def readCsvFile_def replaceEntireSheet_def example_env_def)
  note p2 = this
  have g: "spreadsheets_get (example_env [(''Sheet1'', i)]) ''doc'' = Inr [(''Sheet1'', i)]"
    by (simp add: example_env_def)
  have p1: "processOperation (example_env [(''Sheet1'', i)]) ''doc'' ?m op_missing_sheet [Get ''doc''] =
     ([Get ''doc'',
       Log ''Processing operation for sheet: Missing'',
       Warn (''Sheet '' @ [CHR 0x22] @ ''Missing'' @ [CHR 0x22] @ '' not found, skipping operation'')],
      Inr ())"
    using processOperation_skip[OF s1]
    by (simp add: processing_line_def not_found_line_def op_missing_sheet_def)
  have "processLoop (example_env [(''Sheet1'', i)]) ''doc'' ?m [op_missing_sheet, op_good] [Get ''doc''] =
     ([Get ''doc'',
       Log ''Processing operation for sheet: Missing'',
       Warn (''Sheet '' @ [CHR 0x22] @ ''Missing'' @ [CHR 0x22] @ '' not found, skipping operation''),
       Log ''Processing operation for sheet: Sheet1'',
       Log ''CSV file read successfully: d.csv'',
       Clear ''doc'' (JStr ''Sheet1''),
       Update ''doc'' (JStr ''Sheet1'') [[''a'', ''b'']],
       Log ''Replaced all data in sheet: Sheet1''],
      Inr ())"
    by (simp add: p1 p2)
  then show ?thesis using g by (simp add: processDataOperations_def)
qed

subsection \<open>Facts about the example strings\<close>

lemma A_upper: "\<forall>c\<in>set ''A''. isUpperAZ c" by (simp add: isUpperAZ_def)
lemma AB_upper: "\<forall>c\<in>set ''AB''. isUpperAZ c" by (simp add: isUpperAZ_def)
lemma one_digit: "\<forall>c\<in>set ''1''. isDigit c" by (simp add: isDigit_def)

section \<open>The claims\<close>

subsection \<open>C1: a missing sheet is skipped, the next operation runs\<close>

text \<open>
  C1. With a sheet registry that maps \<^verbatim>\<open>Sheet1\<close> to the id 0 and two operations, the first
  on the absent sheet \<^verbatim>\<open>Missing\<close> and the second a \<^verbatim>\<open>replaceEntireSheet\<close> on \<^verbatim>\<open>Sheet1\<close>, the
  dispatcher is expected to skip the first with a warning and to execute the second
  (clear, then write).

  The program does the first and not the second. Its test for "the sheet exists" is
  \<^verbatim>\<open>!sheetsMap[operation.sheetName]\<close>, and the id 0 is falsy: the operation on \<^verbatim>\<open>Sheet1\<close> is
  skipped with the same "not found" warning. The theorem gives the whole trace of the run, for
  every environment whose spreadsheet has this one sheet and for every first operation
  naming \<^verbatim>\<open>Missing\<close>: it holds no \<open>Clear\<close> and no \<open>Update\<close>. With any other id of
  the sheet, the second operation does run (\<open>dispatch_sheet_id_nonzero\<close>, in the example
  environment).
\<close>

theorem dispatch_sheet_id_zero:
  "spreadsheets_get env sid = Inr [(''Sheet1'', 0)] \<and> sheetName first = JStr ''Missing'' \<longrightarrow>
   processDataOperations env sid [first, op_good] tr =
     (tr @ [Get sid,
            Log ''Processing operation for sheet: Missing'',
            Warn (''Sheet '' @ [CHR 0x22] @ ''Missing'' @ [CHR 0x22] @ '' not found, skipping operation''),
            Log ''Processing operation for sheet: Sheet1'',
            Warn (''Sheet '' @ [CHR 0x22] @ ''Sheet1'' @ [CHR 0x22] @ '' not found, skipping operation''),
            Log ''All operations completed successfully''],
      Inr ())"
  (is "?given \<longrightarrow> ?run")
proof
  assume a: ?given
  let ?m = "build_sheetsMap [(''Sheet1'', 0)]"
  have s1: "\<not> sheetsMap_truthy ?m (ToString (sheetName first))"
    using a Missing_falsy by simp
  have s2: "\<not> sheetsMap_truthy ?m (ToString (sheetName op_good))"
    using Sheet1_id_zero_falsy by (simp add: op_good_def)
  have "processLoop env sid ?m [first, op_good] (tr @ [Get sid]) =
          (tr @ [Get sid, processing_line first, not_found_line first,
                 processing_line op_good, not_found_line op_good], Inr ())"
    by (simp add: processOperation_skip[OF s1] processOperation_skip[OF s2])
  then show ?run
    using a by (simp add: processDataOperations_def processing_line_def not_found_line_def op_good_def)
qed

theorem dispatch_sheet_id_zero_witness:
  "processDataOperations (example_env [(''Sheet1'', 0)]) ''doc'' [op_missing_sheet, op_good] [] =
     ([Get ''doc'',
       Log ''Processing operation for sheet: Missing'',
       Warn (''Sheet '' @ [CHR 0x22] @ ''Missing'' @ [CHR 0x22] @ '' not found, skipping operation''),
       Log ''Processing operation for sheet: Sheet1'',
       Warn (''Sheet '' @ [CHR 0x22] @ ''Sheet1'' @ [CHR 0x22] @ '' not found, skipping operation''),
       Log ''All operations completed successfully''],
      Inr ())"
proof -
  have h: "spreadsheets_get (example_env [(''Sheet1'', 0)]) ''doc'' = Inr [(''Sheet1'', 0)] \<and>
           sheetName op_missing_sheet = JStr ''Missing''"
    by (simp add: example_env_def op_missing_sheet_def)
  have "processDataOperations (example_env [(''Sheet1'', 0)]) ''doc'' [op_missing_sheet, op_good] [] =
     ([] @ [Get ''doc'',
       Log ''Processing operation for sheet: Missing'',
       Warn (''Sheet '' @ [CHR 0x22] @ ''Missing'' @ [CHR 0x22] @ '' not found, skipping operation''),
       Log ''Processing operation for sheet: Sheet1'',
       Warn (''Sheet '' @ [CHR 0x22] @ ''Sheet1'' @ [CHR 0x22] @ '' not found, skipping operation''),
       Log ''All operations completed successfully''],
      Inr ())"
    using dispatch_sheet_id_zero[of "example_env [(''Sheet1'', 0)]" "''doc''" op_missing_sheet "[]"] h
    by (rule mp)
  then show ?thesis by (simp only: append_Nil)
qed

subsection \<open>C2: the column conversions are inverse to each other\<close>

text \<open>
  C2. For every \<open>n\<close> from 1 to 18278, \<open>columnToNumber (getColumnLetter n) = n\<close>; for every
  non-empty string \<open>s\<close> of at most three uppercase letters,
  \<open>getColumnLetter (columnToNumber s) = s\<close>. (\<^verbatim>\<open>getColumnLetter\<close> is the program's name of
  \<^verbatim>\<open>numberToColumn\<close>.)
\<close>

theorem column_round_trip:
  "(1 \<le> n \<and> n \<le> 18278 \<longrightarrow> columnToNumber (getColumnLetter n) = n) \<and>
   (s \<noteq> [] \<and> (\<forall>c\<in>set s. isUpperAZ c) \<and> length s \<le> 3 \<longrightarrow>
      getColumnLetter (columnToNumber s) = s)"
  by (simp add: columnToNumber_getColumnLetter getColumnLetter_columnToNumber)

theorem column_round_trip_witness:
  "columnToNumber (getColumnLetter 18278) = 18278 \<and> getColumnLetter 18278 = ''ZZZ'' \<and>
   getColumnLetter (columnToNumber ''AB'') = ''AB'' \<and> columnToNumber ''AB'' = 28"
proof -
  have up: "\<forall>c\<in>set ''AB''. isUpperAZ c" by (simp add: isUpperAZ_def)
  have a: "columnToNumber (getColumnLetter 18278) = 18278"
    using column_round_trip[of 18278 "''AB''"] by simp
  have b: "getColumnLetter (columnToNumber ''AB'') = ''AB''"
    using column_round_trip[of 18278 "''AB''"] up by simp
  have c: "getColumnLetter 18278 = ''ZZZ''" by code_simp
  have d: "columnToNumber ''AB'' = 28" by code_simp
  show ?thesis using a b c d by simp
qed

subsection \<open>C3: the extent of the written region\<close>

text \<open>
  C3. For a start reference made of column letters \<open>c\<close> and row digits \<open>r\<close> with a
  positive row (the column of a non-empty run of letters is positive), and any data \<open>d\<close>,
  ragged or not, \<^verbatim>\<open>getEndCell\<close> returns letters \<open>L\<close> followed by digits \<open>R\<close> where the
  row \<open>R\<close> is the start row plus \<open>length d - 1\<close> and the column \<open>L\<close> is the start column
  plus \<open>maxRowLength d - 1\<close>. The row plus the number of rows and the column plus the
  longest row are below \<open>2^53\<close>, where the program's numbers are exact. The two
  examples: \<^verbatim>\<open>getEndCell("A1", [["a","b"],["c"]])\<close> is \<^verbatim>\<open>"B2"\<close> and
  \<^verbatim>\<open>getEndCell("C5", [["x"]])\<close> is \<^verbatim>\<open>"C5"\<close>.
\<close>

theorem getEndCell_extent:
  "(c \<noteq> [] \<and> (\<forall>x\<in>set c. isUpperAZ x) \<and> r \<noteq> [] \<and> (\<forall>x\<in>set r. isDigit x) \<and> 1 \<le> parseInt r \<and>
    parseInt r + int (length d) < 2 ^ 53 \<and> columnToNumber c + maxRowLength d < 2 ^ 53 \<longrightarrow>
      (\<exists>L R. getEndCell (c @ r) d = Inr (L @ R) \<and>
         (\<forall>x\<in>set L. isUpperAZ x) \<and> R \<noteq> [] \<and> (\<forall>x\<in>set R. isDigit x) \<and>
         parseInt R = parseInt r + int (length d) - 1 \<and>
         columnToNumber L = columnToNumber c + maxRowLength d - 1)) \<and>
   getEndCell ''A1'' [[''a'', ''b''], [''c'']] = Inr ''B2'' \<and>
   getEndCell ''C5'' [[''x'']] = Inr ''C5''"
  (is "(?given \<longrightarrow> ?extent) \<and> ?example1 \<and> ?example2")
proof (intro conjI impI)
  assume a: ?given
  let ?col = "columnToNumber c + getMaxRowLength d - 1"
  let ?row = "parseInt r + int (length d) - 1"
  have col0: "0 \<le> ?col"
    using columnToNumber_pos[of c] getMaxRowLength_nonneg[of d] a by simp
  have row0: "0 \<le> ?row" using a by simp
  have "getEndCell (c @ r) d = Inr (getColumnLetter ?col @ number_to_string ?row)"
    using a by (simp add: getEndCell_ref)
  moreover have "\<forall>x\<in>set (getColumnLetter ?col). isUpperAZ x"
    using getColumnLetter_upper by blast
  moreover have "number_to_string ?row \<noteq> []" "\<forall>x\<in>set (number_to_string ?row). isDigit x"
    using number_to_string_nonneg[OF row0] by simp_all
  moreover have "parseInt (number_to_string ?row) = ?row"
    using row0 by (rule parseInt_number_to_string)
  moreover have "columnToNumber (getColumnLetter ?col) = columnToNumber c + maxRowLength d - 1"
    using columnToNumber_getColumnLetter[OF col0] by (simp add: getMaxRowLength_spec)
  ultimately show ?extent by blast
next
  show ?example1 by code_simp
next
  show ?example2 by code_simp
qed

theorem getEndCell_extent_witness:
  "\<exists>L R. getEndCell ''AZ9'' [[''x'', ''y''], [], [''z'']] = Inr (L @ R) \<and>
         (\<forall>x\<in>set L. isUpperAZ x) \<and> R \<noteq> [] \<and> (\<forall>x\<in>set R. isDigit x) \<and>
         parseInt R = 11 \<and> columnToNumber L = 53"
proof -
  let ?d = "[[''x'', ''y''], [], [''z'']] :: tabular"
  have h: "''AZ'' \<noteq> [] \<and> (\<forall>x\<in>set ''AZ''. isUpperAZ x) \<and> ''9'' \<noteq> [] \<and> (\<forall>x\<in>set ''9''. isDigit x) \<and>
           1 \<le> parseInt ''9'' \<and> parseInt ''9'' + int (length ?d) < 2 ^ 53 \<and>
           columnToNumber ''AZ'' + maxRowLength ?d < 2 ^ 53"
    by (simp add: isUpperAZ_def isDigit_def parseInt_def columnToNumber_def maxRowLength_def)
  have "\<exists>L R. getEndCell (''AZ'' @ ''9'') ?d = Inr (L @ R) \<and>
         (\<forall>x\<in>set L. isUpperAZ x) \<and> R \<noteq> [] \<and> (\<forall>x\<in>set R. isDigit x) \<and>
         parseInt R = parseInt ''9'' + int (length ?d) - 1 \<and>
         columnToNumber L = columnToNumber ''AZ'' + maxRowLength ?d - 1"
    using getEndCell_extent[of "''AZ''" "''9''" ?d] h by blast
  moreover have "parseInt ''9'' + int (length ?d) - 1 = 11" by (simp add: parseInt_def)
  moreover have "columnToNumber ''AZ'' + maxRowLength ?d - 1 = 53"
    by (simp add: columnToNumber_def maxRowLength_def)
  ultimately show ?thesis by simp
qed

subsection \<open>C4: when the validator raises\<close>

text \<open>
  C4, as the program has it. For a configuration whose scalar properties are present and
  whose \<^verbatim>\<open>operations\<close> is an array:
  \<^item> an empty array fails with \<^verbatim>\<open>Operations must be a non-empty array\<close>;
  \<^item> at the first operation that does not pass, in the order of the array, the error names
    the first of \<^verbatim>\<open>sheetName\<close>, \<^verbatim>\<open>dataPath\<close>, \<^verbatim>\<open>operationType\<close> that is falsy (absent or
    empty) and the 1-based index of the operation; an operation of type
    \<^verbatim>\<open>replaceAtCell\<close> whose three properties are present and whose \<^verbatim>\<open>cellId\<close> is falsy
    fails with the error of its own;
  \<^item> validation passes exactly when the array is not empty and every operation has truthy
    \<^verbatim>\<open>sheetName\<close>, \<^verbatim>\<open>dataPath\<close> and \<^verbatim>\<open>operationType\<close>, and a truthy \<^verbatim>\<open>cellId\<close> when its
    type is \<^verbatim>\<open>replaceAtCell\<close>.
  The claim's last part, that a list none of whose operations misses a property passes, does
  not hold when missing means absent: a property that is present and empty is rejected
  too (the counterexample below, and C9).
\<close>

theorem validateConfig_contract:
  "scalars_present config \<and> operations config = Array ops \<longrightarrow>
     (ops = [] \<longrightarrow> validateConfig config = Inl (Error ''Operations must be a non-empty array'')) \<and>
     (\<forall>pre operation post. ops = pre @ operation # post \<and> list_all operation_valid pre \<longrightarrow>
        (\<not> truthy (sheetName operation) \<longrightarrow>
           validateConfig config =
             Inl (Error (''Operation #'' @ number_to_string (int (length pre) + 1) @
                         '' is missing sheetName''))) \<and>
        (truthy (sheetName operation) \<and> \<not> truthy (dataPath operation) \<longrightarrow>
           validateConfig config =
             Inl (Error (''Operation #'' @ number_to_string (int (length pre) + 1) @
                         '' is missing dataPath''))) \<and>
        (truthy (sheetName operation) \<and> truthy (dataPath operation) \<and>
         \<not> truthy (operationType operation) \<longrightarrow>
           validateConfig config =
             Inl (Error (''Operation #'' @ number_to_string (int (length pre) + 1) @
                         '' is missing operationType''))) \<and>
        (truthy (sheetName operation) \<and> truthy (dataPath operation) \<and>
         operationType operation = JStr ''replaceAtCell'' \<and> \<not> truthy (cellId operation) \<longrightarrow>
           validateConfig config =
             Inl (Error (''Operation #'' @ number_to_string (int (length pre) + 1) @
                         '' with type 'replaceAtCell' is missing cellId'')))) \<and>
     ((\<exists>u. validateConfig config = Inr u) \<longleftrightarrow> ops \<noteq> [] \<and> list_all operation_valid ops)"
  (is "?given \<longrightarrow> ?empty \<and> ?first_defect \<and> ?passes")
proof
  assume ?given
  then have vc: "validateConfig config =
     (if ops = [] then Inl (Error ''Operations must be a non-empty array'')
      else validateOperations 0 ops)"
    by (simp add: validateConfig_operations)
  have ?empty using vc by simp
  moreover have ?first_defect
  proof (intro allI impI)
    fix pre operation post
    assume "ops = pre @ operation # post \<and> list_all operation_valid pre"
    then have "validateConfig config = validateOperations 0 (pre @ operation # post)"
      and "list_all operation_valid pre"
      using vc by simp_all
    then show "(\<not> truthy (sheetName operation) \<longrightarrow>
           validateConfig config =
             Inl (Error (''Operation #'' @ number_to_string (int (length pre) + 1) @
                         '' is missing sheetName''))) \<and>
        (truthy (sheetName operation) \<and> \<not> truthy (dataPath operation) \<longrightarrow>
           validateConfig config =
             Inl (Error (''Operation #'' @ number_to_string (int (length pre) + 1) @
                         '' is missing dataPath''))) \<and>
        (truthy (sheetName operation) \<and> truthy (dataPath operation) \<and>
         \<not> truthy (operationType operation) \<longrightarrow>
           validateConfig config =
             Inl (Error (''Operation #'' @ number_to_string (int (length pre) + 1) @
                         '' is missing operationType''))) \<and>
        (truthy (sheetName operation) \<and> truthy (dataPath operation) \<and>
         operationType operation = JStr ''replaceAtCell'' \<and> \<not> truthy (cellId operation) \<longrightarrow>
           validateConfig config =
             Inl (Error (''Operation #'' @ number_to_string (int (length pre) + 1) @
                         '' with type 'replaceAtCell' is missing cellId'')))"
      by (simp add: validateOperations_first_defect)
  qed
  moreover have ?passes
    using vc validateOperations_passes_iff[of 0 ops] by (cases "ops = []") simp_all
  ultimately show "?empty \<and> ?first_defect \<and> ?passes" by blast
qed

theorem validateConfig_contract_witness:
  "validateConfig (example_config []) = Inl (Error ''Operations must be a non-empty array'') \<and>
   validateConfig (example_config [op_good, op_only_sheetName]) =
     Inl (Error ''Operation #2 is missing dataPath'') \<and>
   validateConfig (example_config [op_no_cellId]) =
     Inl (Error ''Operation #1 with type 'replaceAtCell' is missing cellId'') \<and>
   validateConfig (example_config [op_good]) = Inr ()"
proof -
  have w1: "validateConfig (example_config []) = Inl (Error ''Operations must be a non-empty array'')"
    using validateConfig_contract[of "example_config []" "[]"] example_config_pre[of "[]"]
    by blast
  have s2: "[op_good, op_only_sheetName] = [op_good] @ op_only_sheetName # [] \<and>
            list_all operation_valid [op_good]"
    using op_good_valid by simp
  have f2: "truthy (sheetName op_only_sheetName) \<and> \<not> truthy (dataPath op_only_sheetName)"
    by (simp add: op_only_sheetName_def)
  have "validateConfig (example_config [op_good, op_only_sheetName]) =
     Inl (Error (''Operation #'' @ number_to_string (int (length [op_good]) + 1) @
                         '' is missing dataPath''))"
    using validateConfig_contract[of "example_config [op_good, op_only_sheetName]"
            "[op_good, op_only_sheetName]"]
          example_config_pre[of "[op_good, op_only_sheetName]"] s2 f2
    by blast
  then have w2: "validateConfig (example_config [op_good, op_only_sheetName]) =
     Inl (Error ''Operation #2 is missing dataPath'')"
    by (simp add: number_to_string_2)
  have s3: "[op_no_cellId] = [] @ op_no_cellId # [] \<and> list_all operation_valid []"
    by simp
  have f3: "truthy (sheetName op_no_cellId) \<and> truthy (dataPath op_no_cellId) \<and>
         operationType op_no_cellId = JStr ''replaceAtCell'' \<and> \<not> truthy (cellId op_no_cellId)"
    by (simp add: op_no_cellId_def)
  have "validateConfig (example_config [op_no_cellId]) =
     Inl (Error (''Operation #'' @ number_to_string (int (length ([] :: operation list)) + 1) @
                         '' with type 'replaceAtCell' is missing cellId''))"
    using validateConfig_contract[of "example_config [op_no_cellId]" "[op_no_cellId]"]
          example_config_pre[of "[op_no_cellId]"] s3 f3
    by blast
  then have w3: "validateConfig (example_config [op_no_cellId]) =
     Inl (Error ''Operation #1 with type 'replaceAtCell' is missing cellId'')"
    by (simp add: number_to_string_1)
  have "\<exists>u. validateConfig (example_config [op_good]) = Inr u"
    using validateConfig_contract[of "example_config [op_good]" "[op_good]"]
          example_config_pre[of "[op_good]"] op_good_valid
    by blast
  then have w4: "validateConfig (example_config [op_good]) = Inr ()" by simp
  from w1 w2 w3 w4 show ?thesis by blast
qed

text \<open>
  An operation whose \<^verbatim>\<open>sheetName\<close> is the empty string has none of the listed defects, no
  property being absent, and does not pass.
\<close>

theorem validateConfig_contract_counterexample:
  "\<not> spec_operation_defect op_empty_sheetName \<and>
   validateConfig (example_config [op_empty_sheetName]) =
     Inl (Error ''Operation #1 is missing sheetName'')"
proof -
  have "\<not> spec_operation_defect op_empty_sheetName"
    by (simp add: spec_operation_defect_def spec_absent_def op_empty_sheetName_def)
  moreover have "validateConfig (example_config [op_empty_sheetName]) =
     Inl (Error ''Operation #1 is missing sheetName'')"
    using example_config_pre[of "[op_empty_sheetName]"]
    by (simp add: validateConfig_operations op_empty_sheetName_def number_to_string_1)
  ultimately show ?thesis by blast
qed

subsection \<open>C5: columnToNumber on strings that are not column letters\<close>




subsection \<open>C6: getColumnLetter on numbers below 1\<close>

text \<open>
  C6, as the program has it. \<^verbatim>\<open>getColumnLetter\<close> has no check and never fails: for
  \<open>n < 1\<close> its loop does not run and it returns the empty string. For \<open>n\<close> from 1 to
  below \<open>2^53\<close> it returns the bijective base-26 numeral of \<open>n\<close>: a non-empty string of
  uppercase letters whose value is \<open>n\<close>, and the only such string.
\<close>

theorem getColumnLetter_total:
  "(n < 1 \<longrightarrow> getColumnLetter n = []) \<and>
   (1 \<le> n \<and> n < 2 ^ 53 \<longrightarrow>
      getColumnLetter n \<noteq> [] \<and> (\<forall>c\<in>set (getColumnLetter n). isUpperAZ c) \<and>
      bij26_value (getColumnLetter n) = n \<and>
      (\<forall>s. (\<forall>c\<in>set s. isUpperAZ c) \<and> bij26_value s = n \<longrightarrow> s = getColumnLetter n))"
proof (intro conjI impI allI)
  assume "n < 1"
  then show "getColumnLetter n = []" by (simp add: getColumnLetter_nonpos)
next
  assume "1 \<le> n \<and> n < 2 ^ 53"
  then show "getColumnLetter n \<noteq> []" by (simp add: getColumnLetter_nonempty)
next
  show "\<forall>c\<in>set (getColumnLetter n). isUpperAZ c" using getColumnLetter_upper by blast
next
  assume "1 \<le> n \<and> n < 2 ^ 53"
  then show "bij26_value (getColumnLetter n) = n"
    using columnToNumber_getColumnLetter[of n] by (simp add: columnToNumber_bij26)
next
  fix s
  assume "(\<forall>c\<in>set s. isUpperAZ c) \<and> bij26_value s = n"
  then show "s = getColumnLetter n"
    using getColumnLetter_columnToNumber[of s] by (simp add: columnToNumber_bij26)
qed

theorem getColumnLetter_total_witness:
  "getColumnLetter 0 = [] \<and> getColumnLetter 28 \<noteq> [] \<and> bij26_value (getColumnLetter 28) = 28 \<and>
   ''AB'' = getColumnLetter 28"
proof -
  have a: "getColumnLetter 0 = []"
    using getColumnLetter_total[of 0] by simp
  have "getColumnLetter 28 \<noteq> [] \<and> (\<forall>c\<in>set (getColumnLetter 28). isUpperAZ c) \<and>
      bij26_value (getColumnLetter 28) = 28 \<and>
      (\<forall>s. (\<forall>c\<in>set s. isUpperAZ c) \<and> bij26_value s = 28 \<longrightarrow> s = getColumnLetter 28)"
    using getColumnLetter_total[of 28] by simp
  moreover have "(\<forall>c\<in>set ''AB''. isUpperAZ c) \<and> bij26_value ''AB'' = 28"
    using AB_upper by simp
  ultimately show ?thesis using a by blast
qed

text \<open>
  On 0 and on -5, where a failure is expected, the program returns the empty string.
\<close>

theorem getColumnLetter_total_counterexample:
  "spec_numberToColumn_fails 0 \<and> getColumnLetter 0 = [] \<and>
   spec_numberToColumn_fails (- 5) \<and> getColumnLetter (- 5) = []"
  by (simp add: spec_numberToColumn_fails_def getColumnLetter_nonpos)

subsection \<open>C7: when getEndCell raises\<close>

text \<open>
  C7, as the program has it. The two patterns are not anchored, so \<^verbatim>\<open>getEndCell\<close> fails
  exactly when the start reference holds no uppercase letter or holds no digit, and the
  error is \<^verbatim>\<open>Invalid cell reference: <startCell>\<close>. It succeeds on every well-formed
  reference, and also on every other string with a letter and a digit somewhere. The
  column it then takes is the leftmost run of uppercase letters (\<open>col\<close>, after a part
  \<open>pre\<close> without a letter and before a part \<open>post\<close> that does not start with one) and the
  row is the leftmost run of digits (\<open>row\<close>, likewise), and the result is the end cell
  computed from these two, for row and column sums below \<open>2^53\<close>.
\<close>

theorem getEndCell_fails_iff_no_match:
  "((\<exists>e. getEndCell s d = Inl e) \<longleftrightarrow>
      (\<forall>c\<in>set s. \<not> isUpperAZ c) \<or> (\<forall>c\<in>set s. \<not> isDigit c)) \<and>
   (getEndCell s d = Inl e \<longrightarrow> e = Error (''Invalid cell reference: '' @ s)) \<and>
   (well_formed_ref s \<longrightarrow> (\<exists>endCell. getEndCell s d = Inr endCell)) \<and>
   (s = pre @ col @ post \<and> (\<forall>x\<in>set pre. \<not> isUpperAZ x) \<and>
    col \<noteq> [] \<and> (\<forall>x\<in>set col. isUpperAZ x) \<and> (post = [] \<or> \<not> isUpperAZ (hd post)) \<and>
    s = pre' @ row @ post' \<and> (\<forall>x\<in>set pre'. \<not> isDigit x) \<and>
    row \<noteq> [] \<and> (\<forall>x\<in>set row. isDigit x) \<and> (post' = [] \<or> \<not> isDigit (hd post')) \<and>
    parseInt row + int (length d) < 2 ^ 53 \<and> columnToNumber col + maxRowLength d < 2 ^ 53 \<longrightarrow>
      getEndCell s d =
        Inr (getColumnLetter (columnToNumber col + maxRowLength d - 1) @
             number_to_string (parseInt row + int (length d) - 1)))"
  (is "?fails_iff \<and> (?failed \<longrightarrow> ?message) \<and> (?well_formed \<longrightarrow> ?succeeds) \<and>
       (?leftmost_runs \<longrightarrow> ?result)")
proof (intro conjI impI)
  show ?fails_iff by (rule getEndCell_fails_iff)
next
  assume ?failed
  then show ?message by (rule getEndCell_error)
next
  assume ?well_formed
  then obtain c r where "s = c @ r" "c \<noteq> []" "\<forall>x\<in>set c. isUpperAZ x" "r \<noteq> []" "\<forall>x\<in>set r. isDigit x"
    using well_formed_ref_parts by blast
  then show ?succeeds by (simp add: getEndCell_ref)
next
  assume a: ?leftmost_runs
  have "match_run isUpperAZ s = Some col"
    unfolding match_run_Some_iff using a by blast
  moreover have "match_run isDigit s = Some row"
    unfolding match_run_Some_iff using a by blast
  ultimately show ?result
    by (simp add: getEndCell_def Let_def getMaxRowLength_spec)
qed

theorem getEndCell_fails_iff_no_match_witness:
  "getEndCell ''12'' [[''x'']] = Inl (Error ''Invalid cell reference: 12'') \<and>
   (\<exists>endCell. getEndCell ''B7'' [[''x'']] = Inr endCell) \<and>
   getEndCell ''x-B2:9'' [[''x'']] = Inr ''B2''"
proof -
  have n: "(\<forall>c\<in>set ''12''. \<not> isUpperAZ c) \<or> (\<forall>c\<in>set ''12''. \<not> isDigit c)"
    by (simp add: isUpperAZ_def)
  have "\<exists>e. getEndCell ''12'' [[''x'']] = Inl e"
    using getEndCell_fails_iff_no_match[of "''12''" "[[''x'']]"] n by blast
  then obtain e where e: "getEndCell ''12'' [[''x'']] = Inl e" ..
  then have "e = Error (''Invalid cell reference: '' @ ''12'')"
    using getEndCell_fails_iff_no_match[of "''12''" "[[''x'']]" e] by blast
  with e have a: "getEndCell ''12'' [[''x'']] = Inl (Error ''Invalid cell reference: 12'')" by simp
  have "well_formed_ref ''B7''" by (simp add: well_formed_ref_def isUpperAZ_def isDigit_def)
  then have b: "\<exists>endCell. getEndCell ''B7'' [[''x'']] = Inr endCell"
    using getEndCell_fails_iff_no_match[of "''B7''" "[[''x'']]"] by blast
  have runs: "''x-B2:9'' = ''x-'' @ ''B'' @ ''2:9'' \<and> (\<forall>x\<in>set ''x-''. \<not> isUpperAZ x) \<and>
    ''B'' \<noteq> [] \<and> (\<forall>x\<in>set ''B''. isUpperAZ x) \<and> (''2:9'' = [] \<or> \<not> isUpperAZ (hd ''2:9'')) \<and>
    ''x-B2:9'' = ''x-B'' @ ''2'' @ '':9'' \<and> (\<forall>x\<in>set ''x-B''. \<not> isDigit x) \<and>
    ''2'' \<noteq> [] \<and> (\<forall>x\<in>set ''2''. isDigit x) \<and> ('':9'' = [] \<or> \<not> isDigit (hd '':9'')) \<and>
    parseInt ''2'' + int (length [[''x'']]) < 2 ^ 53 \<and>
    columnToNumber ''B'' + maxRowLength [[''x'']] < 2 ^ 53"
    by (simp add: isUpperAZ_def isDigit_def parseInt_def columnToNumber_def maxRowLength_def)
  have "getEndCell ''x-B2:9'' [[''x'']] =
        Inr (getColumnLetter (columnToNumber ''B'' + maxRowLength [[''x'']] - 1) @
             number_to_string (parseInt ''2'' + int (length [[''x'']]) - 1))"
    using getEndCell_fails_iff_no_match[of "''x-B2:9''" "[[''x'']]" _ "''x-''" "''B''" "''2:9''"
            "''x-B''" "''2''" "'':9''"] runs
    by blast
  moreover have "getColumnLetter (columnToNumber ''B'' + maxRowLength [[''x'']] - 1) @
             number_to_string (parseInt ''2'' + int (length [[''x'']]) - 1) = ''B2''"
  proof -
    have "columnToNumber ''B'' + maxRowLength [[''x'']] - 1 = 2"
      by (simp add: columnToNumber_def maxRowLength_def)
    moreover have "parseInt ''2'' + int (length [[''x'']]) - 1 = 2"
      by (simp add: parseInt_def)
    moreover have "getColumnLetter 2 @ number_to_string 2 = ''B2''" by code_simp
    ultimately show ?thesis by simp
  qed
  ultimately have c: "getEndCell ''x-B2:9'' [[''x'']] = Inr ''B2''" by simp
  from a b c show ?thesis by blast
qed

text \<open>
  Two strings that are not well-formed references and on which \<^verbatim>\<open>getEndCell\<close> succeeds.
\<close>

theorem getEndCell_fails_iff_no_match_counterexample:
  "\<not> well_formed_ref ''1A'' \<and> getEndCell ''1A'' [[''x'']] = Inr ''A1'' \<and>
   \<not> well_formed_ref ''x-B2:9'' \<and> getEndCell ''x-B2:9'' [[''x'']] = Inr ''B2''"
proof -
  have "\<not> well_formed_ref ''1A''" "\<not> well_formed_ref ''x-B2:9''"
    by (simp_all add: well_formed_ref_def isUpperAZ_def)
  moreover have "getEndCell ''1A'' [[''x'']] = Inr ''A1''" by code_simp
  moreover have "getEndCell ''x-B2:9'' [[''x'']] = Inr ''B2''" by code_simp
  ultimately show ?thesis by blast
qed

subsection \<open>C8: operations run in order, and a load failure ends the run\<close>

text \<open>
  C8. When the operations before \<open>operation\<close> have run without an error, its sheet is
  found and loading its data fails with \<open>e\<close>, the run ends there: the trace is the trace
  of the earlier operations, the line announcing the operation and the two error lines,
  the result is the error \<open>e\<close>, and neither depends on the operations \<open>post\<close> that follow.
  The loop runs the operations in the order of the list: running \<open>xs @ ys\<close> is running
  \<open>xs\<close> and then, unless \<open>xs\<close> ended in an error, running \<open>ys\<close> from the trace \<open>xs\<close>
  left; and a run only ever appends to the trace.
\<close>

theorem load_failure_is_fatal:
  "(spreadsheets_get env sid = Inr sheets \<and>
    processLoop env sid (build_sheetsMap sheets) pre (tr @ [Get sid]) = (tr1, Inr ()) \<and>
    sheetsMap_truthy (build_sheetsMap sheets) (ToString (sheetName operation)) \<and>
    readCsvFile_try env (dataPath operation) = Inl e \<longrightarrow>
      processDataOperations env sid (pre @ operation # post) tr =
        (tr1 @ [Log (''Processing operation for sheet: '' @ ToString (sheetName operation)),
                ErrorLog (''Error reading CSV file ('' @ ToString (dataPath operation) @ ''):'') e,
                ErrorLog ''Error processing data operations:'' e],
         Inl e)) \<and>
   processLoop env sid m (xs @ ys) tr0 =
     (case processLoop env sid m xs tr0 of
        (tr', Inl e') \<Rightarrow> (tr', Inl e')
      | (tr', Inr u) \<Rightarrow> processLoop env sid m ys tr') \<and>
   (\<exists>ev. fst (processLoop env sid m xs tr0) = tr0 @ ev)"
  (is "(?given \<longrightarrow> ?aborts) \<and> ?in_order \<and> ?extends")
proof (intro conjI impI)
  assume a: ?given
  let ?m = "build_sheetsMap sheets"
  have po: "processOperation env sid ?m operation tr1 =
     (tr1 @ [processing_line operation, read_error_line operation e], Inl e)"
    using a by (simp add: processOperation_load_fails)
  have "processLoop env sid ?m (pre @ operation # post) (tr @ [Get sid]) =
     (tr1 @ [processing_line operation, read_error_line operation e], Inl e)"
    using a po by (simp add: processLoop_append)
  then show ?aborts
    using a by (simp add: processDataOperations_def processing_line_def read_error_line_def)
next
  show ?in_order by (rule processLoop_append)
next
  show ?extends by (rule processLoop_extends)
qed

theorem load_failure_is_fatal_witness:
  "processDataOperations (example_env [(''Sheet1'', 7)]) ''doc'' [op_good, op_unreadable, op_good] [] =
     ([Get ''doc'',
       Log ''Processing operation for sheet: Sheet1'',
       Log ''CSV file read successfully: d.csv'',
       Clear ''doc'' (JStr ''Sheet1''),
       Update ''doc'' (JStr ''Sheet1'') [[''a'', ''b'']],
       Log ''Replaced all data in sheet: Sheet1'',
       Log ''Processing operation for sheet: Sheet1'',
       ErrorLog ''Error reading CSV file (gone.csv):'' (Error ''ENOENT''),
       ErrorLog ''Error processing data operations:'' (Error ''ENOENT'')],
      Inl (Error ''ENOENT''))"
proof -
  let ?env = "example_env [(''Sheet1'', 7)]"
  let ?m = "build_sheetsMap [(''Sheet1'', 7)]"
  let ?tr1 = "[Get ''doc'',
       Log ''Processing operation for sheet: Sheet1'',
       Log ''CSV file read successfully: d.csv'',
       Clear ''doc'' (JStr ''Sheet1''),
       Update ''doc'' (JStr ''Sheet1'') [[''a'', ''b'']],
       Log ''Replaced all data in sheet: Sheet1'']"
  have s2: "sheetsMap_truthy ?m ''Sheet1''"
    by (rule Sheet1_nonzero_truthy) simp
  have r: "readCsvFile_try ?env (JStr ''d.csv'') = Inr [[''a'', ''b'']]"
    by (simp add: readCsvFile_try_def example_env_def)
  have h1: "spreadsheets_get ?env ''doc'' = Inr [(''Sheet1'', 7)]"
    by (simp add: example_env_def)
  have h2: "processLoop ?env ''doc'' ?m [op_good] ([] @ [Get ''doc'']) = (?tr1, Inr ())"
    using s2 r by (simp add: processOperation_def op_good_def readCsvFile_def replaceEntireSheet_def example_env_def)
  have h3: "sheetsMap_truthy ?m (ToString (sheetName op_unreadable))"
    using s2 by (simp add: op_unreadable_def)
  have h4: "readCsvFile_try ?env (dataPath op_unreadable) = Inl (Error ''ENOENT'')"
    by (simp add: readCsvFile_try_def example_env_def op_unreadable_def)
  have "processDataOperations ?env ''doc'' ([op_good] @ op_unreadable # [op_good]) [] =
        (?tr1 @ [Log (''Processing operation for sheet: '' @ ToString (sheetName op_unreadable)),
                ErrorLog (''Error reading CSV file ('' @ ToString (dataPath op_unreadable) @ ''):'') (Error ''ENOENT''),
                ErrorLog ''Error processing data operations:'' (Error ''ENOENT'')],
         Inl (Error ''ENOENT''))"
    using load_failure_is_fatal[of ?env "''doc''" "[(''Sheet1'', 7)]" "[op_good]" "[]" ?tr1
            op_unreadable "Error ''ENOENT''" "[op_good]"] h1 h2 h3 h4
    by blast
  then show ?thesis by (simp add: op_unreadable_def)
qed

subsection \<open>C9: empty properties are rejected as absent ones are\<close>

text \<open>
  C9. Removing every falsy property from every operation does not change the outcome of
  the validation. At the first operation that does not pass, a falsy \<^verbatim>\<open>sheetName\<close>,
  \<^verbatim>\<open>dataPath\<close> or \<^verbatim>\<open>operationType\<close> gives the missing-property error, and a
  \<^verbatim>\<open>replaceAtCell\<close> operation with a falsy \<^verbatim>\<open>cellId\<close> gives the missing-cellId error. The
  falsy values are \<^verbatim>\<open>undefined\<close>, \<^verbatim>\<open>null\<close>, \<^verbatim>\<open>false\<close>, \<^verbatim>\<open>0\<close>, \<^verbatim>\<open>NaN\<close> and the empty
  string.
\<close>

theorem validator_rejects_falsy:
  "(operations config = Array ops \<longrightarrow>
      validateConfig (config\<lparr>operations := Array (map absent_fields ops)\<rparr>) = validateConfig config) \<and>
   (scalars_present config \<and> operations config = Array (pre @ operation # post) \<and>
    list_all operation_valid pre \<longrightarrow>
      (\<not> truthy (sheetName operation) \<longrightarrow>
         validateConfig config =
           Inl (Error (''Operation #'' @ number_to_string (int (length pre) + 1) @
                       '' is missing sheetName''))) \<and>
      (truthy (sheetName operation) \<and> \<not> truthy (dataPath operation) \<longrightarrow>
         validateConfig config =
           Inl (Error (''Operation #'' @ number_to_string (int (length pre) + 1) @
                       '' is missing dataPath''))) \<and>
      (truthy (sheetName operation) \<and> truthy (dataPath operation) \<and>
       \<not> truthy (operationType operation) \<longrightarrow>
         validateConfig config =
           Inl (Error (''Operation #'' @ number_to_string (int (length pre) + 1) @
                       '' is missing operationType''))) \<and>
      (truthy (sheetName operation) \<and> truthy (dataPath operation) \<and>
       operationType operation = JStr ''replaceAtCell'' \<and> \<not> truthy (cellId operation) \<longrightarrow>
         validateConfig config =
           Inl (Error (''Operation #'' @ number_to_string (int (length pre) + 1) @
                       '' with type 'replaceAtCell' is missing cellId'')))) \<and>
   (\<not> truthy v \<longleftrightarrow>
      v = JUndefined \<or> v = JNull \<or> v = JBool False \<or> v = JNum 0 \<or> v = JNaN \<or> v = JStr '''')"
  by (simp add: validateConfig_absent_fields validateConfig_operations
        validateOperations_first_defect falsy_values)

theorem validator_rejects_falsy_witness:
  "validateConfig (example_config [op_empty_sheetName]) =
     validateConfig (example_config [absent_fields op_empty_sheetName]) \<and>
   sheetName (absent_fields op_empty_sheetName) = JUndefined \<and>
   validateConfig (example_config [op_empty_sheetName]) =
     Inl (Error ''Operation #1 is missing sheetName'') \<and>
   validateConfig (example_config [op_empty_cellId]) =
     Inl (Error ''Operation #1 with type 'replaceAtCell' is missing cellId'')"
proof -
  note T = validator_rejects_falsy
  have e: "(example_config [op_empty_sheetName])\<lparr>operations := Array (map absent_fields [op_empty_sheetName])\<rparr>
           = example_config [absent_fields op_empty_sheetName]"
    by (simp add: example_config_def)
  have "validateConfig ((example_config [op_empty_sheetName])\<lparr>operations := Array (map absent_fields [op_empty_sheetName])\<rparr>)
        = validateConfig (example_config [op_empty_sheetName])"
    using T[of "example_config [op_empty_sheetName]" "[op_empty_sheetName]"]
          example_config_pre[of "[op_empty_sheetName]"]
    by blast
  then have w1: "validateConfig (example_config [op_empty_sheetName]) =
     validateConfig (example_config [absent_fields op_empty_sheetName])"
    by (simp only: e)
  have w2: "sheetName (absent_fields op_empty_sheetName) = JUndefined"
    by (simp add: absent_fields_def absent_if_falsy_def op_empty_sheetName_def)
  have p: "scalars_present (example_config [op_empty_sheetName]) \<and>
           operations (example_config [op_empty_sheetName]) = Array ([] @ op_empty_sheetName # []) \<and>
           list_all operation_valid []"
    using example_config_pre[of "[op_empty_sheetName]"] by simp
  have f: "\<not> truthy (sheetName op_empty_sheetName)" by (simp add: op_empty_sheetName_def)
  have "validateConfig (example_config [op_empty_sheetName]) =
           Inl (Error (''Operation #'' @ number_to_string (int (length ([] :: operation list)) + 1) @
                       '' is missing sheetName''))"
    using T[of "example_config [op_empty_sheetName]" _ "[]" op_empty_sheetName "[]"] p f
    by blast
  then have w3: "validateConfig (example_config [op_empty_sheetName]) =
     Inl (Error ''Operation #1 is missing sheetName'')"
    by (simp add: number_to_string_1)
  have p4: "scalars_present (example_config [op_empty_cellId]) \<and>
           operations (example_config [op_empty_cellId]) = Array ([] @ op_empty_cellId # []) \<and>
           list_all operation_valid []"
    using example_config_pre[of "[op_empty_cellId]"] by simp
  have f4: "truthy (sheetName op_empty_cellId) \<and> truthy (dataPath op_empty_cellId) \<and>
       operationType op_empty_cellId = JStr ''replaceAtCell'' \<and> \<not> truthy (cellId op_empty_cellId)"
    by (simp add: op_empty_cellId_def)
  have "validateConfig (example_config [op_empty_cellId]) =
           Inl (Error (''Operation #'' @ number_to_string (int (length ([] :: operation list)) + 1) @
                       '' with type 'replaceAtCell' is missing cellId''))"
    using T[of "example_config [op_empty_cellId]" _ "[]" op_empty_cellId "[]"] p4 f4
    by blast
  then have w4: "validateConfig (example_config [op_empty_cellId]) =
     Inl (Error ''Operation #1 with type 'replaceAtCell' is missing cellId'')"
    by (simp add: number_to_string_1)
  from w1 w2 w3 w4 show ?thesis by blast
qed

subsection \<open>C10: getEndCell on empty data\<close>

text \<open>
  C10, as the program has it. On a well-formed start reference with letters \<open>c\<close> and digits
  \<open>r\<close>, both of value below \<open>2^53\<close>, and on empty data, \<^verbatim>\<open>getEndCell\<close> does not fail: it
  returns the letters of the column before \<open>c\<close> followed by \<open>r - 1\<close> in decimal. The
  letters are empty exactly when \<open>c\<close> is \<^verbatim>\<open>A\<close>; then the result is the number alone, which
  is not a well-formed reference (\<^verbatim>\<open>getEndCell("A1", [])\<close> is \<^verbatim>\<open>"0"\<close>). For any other
  column the result has letters, and it can be a well-formed reference.
\<close>

theorem getEndCell_empty_data:
  "c \<noteq> [] \<and> (\<forall>x\<in>set c. isUpperAZ x) \<and> r \<noteq> [] \<and> (\<forall>x\<in>set r. isDigit x) \<and>
   parseInt r < 2 ^ 53 \<and> columnToNumber c < 2 ^ 53 \<longrightarrow>
     getEndCell (c @ r) [] =
       Inr (getColumnLetter (columnToNumber c - 1) @ number_to_string (parseInt r - 1)) \<and>
     (getColumnLetter (columnToNumber c - 1) = [] \<longleftrightarrow> c = ''A'') \<and>
     (c = ''A'' \<longrightarrow> getEndCell (c @ r) [] = Inr (number_to_string (parseInt r - 1)) \<and>
                     \<not> well_formed_ref (number_to_string (parseInt r - 1)))"
  (is "?given \<longrightarrow> ?result \<and> ?no_letters \<and> ?column_A")
proof
  assume a: ?given
  have g: ?result
    using a getEndCell_ref[of c r "[]"] by (simp add: getMaxRowLength_Nil)
  have pos: "1 \<le> columnToNumber c" using a by (simp add: columnToNumber_pos)
  have A1: "columnToNumber ''A'' = 1" by (simp add: columnToNumber_def)
  have e: ?no_letters
  proof
    assume "getColumnLetter (columnToNumber c - 1) = []"
    then have "\<not> 0 < columnToNumber c - 1" using getColumnLetter_nonempty by blast
    with pos have "columnToNumber c = columnToNumber ''A''" using A1 by simp
    then have "getColumnLetter (columnToNumber c) = getColumnLetter (columnToNumber ''A'')" by simp
    moreover have "getColumnLetter (columnToNumber c) = c"
      using a by (simp add: getColumnLetter_columnToNumber)
    moreover have "getColumnLetter (columnToNumber ''A'') = ''A''"
      using A_upper by (rule getColumnLetter_columnToNumber)
    ultimately show "c = ''A''" by simp
  next
    assume "c = ''A''"
    then show "getColumnLetter (columnToNumber c - 1) = []"
      using A1 by (simp add: getColumnLetter_nonpos)
  qed
  have w: "\<not> well_formed_ref (number_to_string (parseInt r - 1))"
    by (simp add: well_formed_ref_def number_to_string_head_not_upper)
  have t: "c = ''A'' \<longrightarrow> getEndCell (c @ r) [] = Inr (number_to_string (parseInt r - 1))"
  proof
    assume "c = ''A''"
    with e have "getColumnLetter (columnToNumber c - 1) = []" by blast
    with g show "getEndCell (c @ r) [] = Inr (number_to_string (parseInt r - 1))"
      by (simp only: append_Nil)
  qed
  from g e w t show "?result \<and> ?no_letters \<and> ?column_A" by blast
qed

theorem getEndCell_empty_data_witness:
  "getEndCell ''A1'' [] = Inr ''0'' \<and> \<not> well_formed_ref ''0''"
proof -
  have h: "''A'' \<noteq> [] \<and> (\<forall>x\<in>set ''A''. isUpperAZ x) \<and> ''1'' \<noteq> [] \<and> (\<forall>x\<in>set ''1''. isDigit x) \<and>
           parseInt ''1'' < 2 ^ 53 \<and> columnToNumber ''A'' < 2 ^ 53"
    using A_upper one_digit by (simp add: parseInt_def columnToNumber_def)
  have "getEndCell (''A'' @ ''1'') [] = Inr (number_to_string (parseInt ''1'' - 1)) \<and>
                     \<not> well_formed_ref (number_to_string (parseInt ''1'' - 1))"
    using getEndCell_empty_data[of "''A''" "''1''"] h by blast
  moreover have "number_to_string (parseInt ''1'' - 1) = ''0''" by code_simp
  ultimately show ?thesis by simp
qed

text \<open>
  From \<^verbatim>\<open>B2\<close> and empty data the result is \<^verbatim>\<open>A1\<close>: it has a column letter, it is not the
  digits of \<open>r - 1\<close> alone, and it is a well-formed reference.
\<close>

theorem getEndCell_empty_data_counterexample:
  "well_formed_ref ''B2'' \<and> getEndCell ''B2'' [] = Inr ''A1'' \<and> well_formed_ref ''A1'' \<and>
   number_to_string (parseInt ''2'' - 1) = ''1''"
proof -
  have "well_formed_ref ''B2''" "well_formed_ref ''A1''"
    by (simp_all add: well_formed_ref_def isUpperAZ_def isDigit_def)
  moreover have "getEndCell ''B2'' [] = Inr ''A1''" by code_simp
  moreover have "number_to_string (parseInt ''2'' - 1) = ''1''" by code_simp
  ultimately show ?thesis by blast
qed

end
